theory Spec2Isabelle
  imports Main
begin

section \<open>Secret rotation: the four-phase client of a secret store\<close>

text \<open>
  The source is one TypeScript class, \<open>SecretsRotationStepActions\<close>
  (\<open>src/secret-rotation.ts\<close>). Its methods are asynchronous, but every remote call is
  awaited before the next statement runs, so one invocation is a sequential program. The
  embedding threads two things through every method:
  \<^item> the world \<open>'w\<close>: the remote store and the downstream service, which only the
    collaborators (the store client and the three abstract methods) can read or change;
  \<^item> a trace: the commands this class has sent to the store client and the methods it
    has entered, oldest first.
  A thrown error is the value \<open>Inl e\<close>; a method that returns normally yields \<open>Inr ()\<close>.
\<close>

subsection \<open>Data\<close>

abbreviation AWSCURRENT :: string where "AWSCURRENT \<equiv> ''AWSCURRENT''"
abbreviation AWSPENDING :: string where "AWSPENDING \<equiv> ''AWSPENDING''"
abbreviation ResourceNotFoundException :: string where
  "ResourceNotFoundException \<equiv> ''ResourceNotFoundException''"

text \<open>
  Errors. The class itself throws \<open>Error\<close> objects that differ only in their message; the
  constructors are named after the condition each message reports:
  \<^item> \<open>RotationDisabled\<close>: "Secret ... is not enabled for rotation" (line 41);
  \<^item> \<open>UnknownVersion\<close>: "Secret version ... has no stage for rotation of secret ..."
    (lines 47 and 53);
  \<^item> \<open>NotPending\<close>: "Secret version ... not set as AWSPENDING ..." (line 60);
  \<^item> \<open>NoCurrentSecret\<close>: "No current secret" (line 84);
  \<^item> \<open>MissingMetadata\<close>: "No VersionIdsToStages" (line 171);
  \<^item> \<open>NoCurrentVersionFound\<close>: "No matching version found in metadata." (line 189);
  \<^item> \<open>TypeError\<close>: the runtime's error for calling a property that is not a function;
  \<^item> \<open>Thrown n\<close>: an error object raised by a collaborator, whose \<open>name\<close> is \<open>n\<close>.
\<close>

datatype error =
    RotationDisabled
  | UnknownVersion
  | NotPending
  | NoCurrentSecret
  | MissingMetadata
  | NoCurrentVersionFound
  | TypeError
  | Thrown string

text \<open>The \<open>name\<close> property of an error object, which the catch clause of
  \<open>createSecret\<close> reads.\<close>

fun error_name :: "error \<Rightarrow> string" where
  "error_name (Thrown n) = n"
| "error_name TypeError = ''TypeError''"
| "error_name _ = ''Error''"

text \<open>\<open>SecretsManagerRotationEvent\<close>: the three fields \<open>doRotate\<close> reads. The declared
  type of \<open>Step\<close> is the union of the four phase names; at run time the field is the
  string the event carries, and \<open>doRotate\<close> uses it as a property name without a check.\<close>

record event =
  SecretId :: string
  ClientRequestToken :: string
  Step :: string

text \<open>\<open>StepCommandArgs\<close>. The \<open>serviceClient\<close> field is the store client of the
  environment below, which every method receives alongside.\<close>

record args =
  arn :: string
  token :: string

text \<open>
  A JavaScript object with string keys and stage arrays as values, as an association list
  in the order \<open>for ... in\<close> and \<open>Object.keys\<close> enumerate it. An object holds each key
  once.
\<close>

type_synonym stage_map = "(string \<times> string list) list"

text \<open>The fields of \<open>DescribeSecretCommandOutput\<close> the class reads; each may be
  undefined (\<open>None\<close>).\<close>

record describe_output =
  RotationEnabled :: "bool option"
  VersionIdsToStages :: "stage_map option"

text \<open>The field of \<open>GetSecretValueCommandOutput\<close> the class tests. The client returns
  an output object whenever it does not throw, so the \<open>!current_secret\<close> half of the test
  on line 83 never fires.\<close>

record get_output =
  SecretString :: "string option"

text \<open>The four commands the class sends, with the fields it sets.\<close>

datatype command =
    DescribeSecretCommand string
      \<comment> \<open>SecretId\<close>
  | GetSecretValueCommand string "string option" string
      \<comment> \<open>SecretId, VersionId (absent in the read of the current value), VersionStage\<close>
  | PutSecretValueCommand string string string "string list"
      \<comment> \<open>SecretId, ClientRequestToken, SecretString, VersionStages\<close>
  | UpdateSecretVersionStageCommand string string string string
      \<comment> \<open>SecretId, VersionStage, MoveToVersionId, RemoveFromVersionId\<close>

text \<open>What the trace records: a command sent through \<open>serviceClient.send\<close>, or the
  entry of a method of the object with its argument. The entry of \<open>createSecret\<close> and
  of \<open>finishSecret\<close> is recorded where the source logs its start marker; the rest of the
  console output is left out.\<close>

datatype call =
    Sent command
  | Called string args

type_synonym 'w state = "'w \<times> call list"

text \<open>
  The collaborators. The store client answers the two reads from the world without
  changing it and may change it in the two writes; the three abstract methods of the
  class may do anything to the world. \<open>otherMember\<close> is what \<open>this[name]\<close> resolves to
  for a name that is none of \<open>createSecret\<close>, \<open>setSecret\<close>, \<open>testSecret\<close>,
  \<open>finishSecret\<close> and \<open>generateSecret\<close>: a method a subclass adds, one inherited from
  \<open>Object.prototype\<close>, or \<open>doRotate\<close> itself entered with the argument object as its
  event; \<open>None\<close> when the property is undefined or not a function.
\<close>

record 'w env =
  describeSecret :: "string \<Rightarrow> 'w \<Rightarrow> error + describe_output"
  getSecretValue :: "string \<Rightarrow> string option \<Rightarrow> string \<Rightarrow> 'w \<Rightarrow> error + get_output"
  putSecretValue :: "string \<Rightarrow> string \<Rightarrow> string \<Rightarrow> string list \<Rightarrow> 'w \<Rightarrow> (error + unit) \<times> 'w"
  updateSecretVersionStage :: "string \<Rightarrow> string \<Rightarrow> string \<Rightarrow> string \<Rightarrow> 'w \<Rightarrow> (error + unit) \<times> 'w"
  generateSecret :: "args \<Rightarrow> 'w \<Rightarrow> (error + string) \<times> 'w"
  setSecret :: "args \<Rightarrow> 'w \<Rightarrow> (error + unit) \<times> 'w"
  testSecret :: "args \<Rightarrow> 'w \<Rightarrow> (error + unit) \<times> 'w"
  otherMember :: "string \<Rightarrow> (args \<Rightarrow> 'w \<Rightarrow> (error + unit) \<times> 'w) option"

subsection \<open>Sending commands and entering methods\<close>

definition record_call :: "call \<Rightarrow> 'w state \<Rightarrow> 'w state" where
  "record_call c s = (fst s, snd s @ [c])"

definition send_describe :: "'w env \<Rightarrow> string \<Rightarrow> 'w state \<Rightarrow> (error + describe_output) \<times> 'w state" where
  "send_describe env a s =
     (describeSecret env a (fst s), record_call (Sent (DescribeSecretCommand a)) s)"

definition send_get ::
  "'w env \<Rightarrow> string \<Rightarrow> string option \<Rightarrow> string \<Rightarrow> 'w state \<Rightarrow> (error + get_output) \<times> 'w state" where
  "send_get env a v l s =
     (getSecretValue env a v l (fst s), record_call (Sent (GetSecretValueCommand a v l)) s)"

definition send_put ::
  "'w env \<Rightarrow> string \<Rightarrow> string \<Rightarrow> string \<Rightarrow> string list \<Rightarrow> 'w state \<Rightarrow> (error + unit) \<times> 'w state" where
  "send_put env a t x ls s =
     (case putSecretValue env a t x ls (fst s) of
        (r, w') \<Rightarrow> (r, (w', snd s @ [Sent (PutSecretValueCommand a t x ls)])))"

definition send_update ::
  "'w env \<Rightarrow> string \<Rightarrow> string \<Rightarrow> string \<Rightarrow> string \<Rightarrow> 'w state \<Rightarrow> (error + unit) \<times> 'w state" where
  "send_update env a l to from s =
     (case updateSecretVersionStage env a l to from (fst s) of
        (r, w') \<Rightarrow> (r, (w', snd s @ [Sent (UpdateSecretVersionStageCommand a l to from)])))"

text \<open>Entering one of the methods a subclass supplies.\<close>

definition call_member ::
  "string \<Rightarrow> (args \<Rightarrow> 'w \<Rightarrow> (error + 'a) \<times> 'w) \<Rightarrow> args \<Rightarrow> 'w state \<Rightarrow> (error + 'a) \<times> 'w state" where
  "call_member n f x s =
     (case f x (fst s) of (r, w') \<Rightarrow> (r, (w', snd s @ [Called n x])))"

subsection \<open>createSecret (lines 73 to 130)\<close>

text \<open>The truthiness test \<open>!current_secret.SecretString\<close>: undefined and the empty
  string are falsy.\<close>

fun falsy :: "string option \<Rightarrow> bool" where
  "falsy None = True"
| "falsy (Some x) = (x = [])"

definition createSecret :: "'w env \<Rightarrow> args \<Rightarrow> 'w state \<Rightarrow> (error + unit) \<times> 'w state" where
  "createSecret env x s0 =
     (let s = record_call (Called ''createSecret'' x) s0 in
      case send_get env (arn x) None AWSCURRENT s of
        (Inl e, s1) \<Rightarrow> (Inl e, s1)
      | (Inr current_secret, s1) \<Rightarrow>
          if falsy (SecretString current_secret) then (Inl NoCurrentSecret, s1)
          else
            (case send_get env (arn x) (Some (token x)) AWSPENDING s1 of
               (Inr pending_secret, s2) \<Rightarrow> (Inr (), s2)
             | (Inl err, s2) \<Rightarrow>
                 if error_name err \<noteq> ResourceNotFoundException then (Inl err, s2)
                 else
                   (case call_member ''generateSecret'' (generateSecret env) x s2 of
                      (Inl e, s3) \<Rightarrow> (Inl e, s3)
                    | (Inr new_secret, s3) \<Rightarrow>
                        (case send_put env (arn x) (token x) new_secret [AWSPENDING] s3 of
                           (Inl e, s4) \<Rightarrow> (Inl e, s4)
                         | (Inr u, s4) \<Rightarrow> (Inr (), s4)))))"

subsection \<open>finishSecret (lines 160 to 206)\<close>

text \<open>
  The \<open>for ... in\<close> loop of lines 174 to 186 leaves in one of three ways: by the
  \<open>return\<close> of line 181, by the \<open>break\<close> of line 184 with \<open>current_version\<close>
  assigned, or by running out of keys with \<open>current_version\<close> as it was.
\<close>

datatype scan = Returned | Left string

fun scan_versions :: "stage_map \<Rightarrow> string \<Rightarrow> string \<Rightarrow> scan" where
  "scan_versions [] t current_version = Left current_version"
| "scan_versions ((version, stages) # rest) t current_version =
     (if AWSCURRENT \<in> set stages
      then (if version = t then Returned else Left version)
      else scan_versions rest t current_version)"

definition finishSecret :: "'w env \<Rightarrow> args \<Rightarrow> 'w state \<Rightarrow> (error + unit) \<times> 'w state" where
  "finishSecret env x s0 =
     (let s = record_call (Called ''finishSecret'' x) s0 in
      case send_describe env (arn x) s of
        (Inl e, s1) \<Rightarrow> (Inl e, s1)
      | (Inr metadata, s1) \<Rightarrow>
          (case VersionIdsToStages metadata of
             None \<Rightarrow> (Inl MissingMetadata, s1)
           | Some vs \<Rightarrow>
               (case scan_versions vs (token x) ''None'' of
                  Returned \<Rightarrow> (Inr (), s1)
                | Left current_version \<Rightarrow>
                    if current_version = ''None'' then (Inl NoCurrentVersionFound, s1)
                    else send_update env (arn x) AWSCURRENT (token x) current_version s1)))"

subsection \<open>doRotate (lines 22 to 71)\<close>

text \<open>
  \<open>token in versions\<close> is true for an own key of the object and for a property it
  inherits from \<open>Object.prototype\<close>; \<open>Object.keys(versions)\<close> lists the own keys only.
\<close>

definition Object_prototype_properties :: "string list" where
  "Object_prototype_properties =
     [''constructor'', ''__defineGetter__'', ''__defineSetter__'', ''hasOwnProperty'',
      ''__lookupGetter__'', ''__lookupSetter__'', ''isPrototypeOf'',
      ''propertyIsEnumerable'', ''toString'', ''valueOf'', ''__proto__'',
      ''toLocaleString'']"

definition Object_keys :: "stage_map \<Rightarrow> string list" where
  "Object_keys versions = map fst versions"

definition js_in :: "string \<Rightarrow> stage_map \<Rightarrow> bool" where
  "js_in k versions \<longleftrightarrow> k \<in> set (Object_keys versions) \<or> k \<in> set Object_prototype_properties"

text \<open>\<open>versions[token]\<close> for an own key; the empty array stands for the undefined of a
  key that is absent, which \<open>doRotate\<close> has excluded before it reads.\<close>

definition stages_of :: "stage_map \<Rightarrow> string \<Rightarrow> string list" where
  "stages_of versions k = (case map_of versions k of None \<Rightarrow> [] | Some ls \<Rightarrow> ls)"

text \<open>\<open>await this[step]({serviceClient, arn, token})\<close>: the property lookup on the
  object, then the call.\<close>

definition invoke_step :: "'w env \<Rightarrow> string \<Rightarrow> args \<Rightarrow> 'w state \<Rightarrow> (error + unit) \<times> 'w state" where
  "invoke_step env step x s =
     (if step = ''createSecret'' then createSecret env x s
      else if step = ''setSecret'' then call_member ''setSecret'' (setSecret env) x s
      else if step = ''testSecret'' then call_member ''testSecret'' (testSecret env) x s
      else if step = ''finishSecret'' then finishSecret env x s
      else if step = ''generateSecret'' then
        (case call_member ''generateSecret'' (generateSecret env) x s of
           (Inl e, s') \<Rightarrow> (Inl e, s')
         | (Inr new_secret, s') \<Rightarrow> (Inr (), s'))
      else
        (case otherMember env step of
           None \<Rightarrow> (Inl TypeError, s)
         | Some f \<Rightarrow> call_member step f x s))"

definition doRotate :: "'w env \<Rightarrow> event \<Rightarrow> 'w state \<Rightarrow> (error + unit) \<times> 'w state" where
  "doRotate env ev s0 =
     (let a = SecretId ev; t = ClientRequestToken ev; step = Step ev in
      case send_describe env a s0 of
        (Inl e, s1) \<Rightarrow> (Inl e, s1)
      | (Inr metadata, s1) \<Rightarrow>
          if RotationEnabled metadata \<noteq> Some True then (Inl RotationDisabled, s1)
          else
            (let versions = (case VersionIdsToStages metadata of None \<Rightarrow> [] | Some vs \<Rightarrow> vs) in
             if \<not> js_in t versions then (Inl UnknownVersion, s1)
             else if t \<notin> set (Object_keys versions) then (Inl UnknownVersion, s1)
             else if AWSCURRENT \<in> set (stages_of versions t) then (Inr (), s1)
             else if AWSPENDING \<notin> set (stages_of versions t) then (Inl NotPending, s1)
             else invoke_step env step \<lparr>arn = a, token = t\<rparr> s1))"

text \<open>
  What \<open>this[name]\<close> resolves to for the properties every instance inherits from
  \<open>Object.prototype\<close>, called with the one argument object. Eight of them return a value
  and touch nothing. The constructor of a class cannot be called without \<open>new\<close>, and the
  two definers want a function as their second argument: these three throw the type
  error of the runtime. \<open>__proto__\<close> is an object, not a function, and any other name
  is undefined.
\<close>

definition inherited_member :: "string \<Rightarrow> (args \<Rightarrow> 'w \<Rightarrow> (error + unit) \<times> 'w) option" where
  "inherited_member n =
     (if n \<in> set [''hasOwnProperty'', ''isPrototypeOf'', ''propertyIsEnumerable'',
                    ''toLocaleString'', ''toString'', ''valueOf'',
                    ''__lookupGetter__'', ''__lookupSetter__'']
      then Some (\<lambda>x w. (Inr (), w))
      else if n \<in> set [''constructor'', ''__defineGetter__'', ''__defineSetter__'']
      then Some (\<lambda>x w. (Inl TypeError, w))
      else None)"

text \<open>
  The members of an instance whose subclass adds none, beyond the five that
  \<open>invoke_step\<close> routes itself: \<open>doRotate\<close> and the inherited ones. \<open>doRotate\<close> entered
  through \<open>this[step]\<close> receives the argument object as its event, which has no
  \<open>SecretId\<close>, \<open>ClientRequestToken\<close> or \<open>Step\<close>; \<open>reenter\<close> is what that run comes to
  with the client at hand. The describe it sends names no secret and is not recorded in
  the trace.
\<close>

definition instance_members ::
  "(args \<Rightarrow> 'w \<Rightarrow> (error + unit) \<times> 'w) \<Rightarrow> string \<Rightarrow> (args \<Rightarrow> 'w \<Rightarrow> (error + unit) \<times> 'w) option" where
  "instance_members reenter n = (if n = ''doRotate'' then Some reenter else inherited_member n)"

subsection \<open>The store\<close>

text \<open>
  The remote store is an external service: the repository holds only its client. Where
  a property depends on what the store does with a command, it is stated over the store
  of this subsection, which follows the store interface of section 6 of the
  specification (\<open>describeSecret\<close>, \<open>getSecretValue\<close>, \<open>putSecretValue\<close>,
  \<open>moveStageVersion\<close>) and the data model of its section 3.
\<close>

text \<open>Modelled from the spec: a version of section 3, which the source does not
  declare. It carries stage labels and, once written, a value; a version that the
  rotation trigger has staged PENDING exists before it has a value.\<close>

record secret_version =
  labels :: "string list"
  content :: "string option"

text \<open>Modelled from the spec: a secret of section 3, which the source does not declare:
  the rotation flag and the versions by id, in a fixed enumeration order.\<close>

record secret =
  rotation :: bool
  entries :: "(string \<times> secret_version) list"

text \<open>Modelled from the spec: the store, secrets by identifier.\<close>

type_synonym store = "string \<Rightarrow> secret option"

abbreviation NotFound :: error where "NotFound \<equiv> Thrown ResourceNotFoundException"

text \<open>Modelled from the spec: \<open>describeSecret(secretId)\<close> returns the rotation flag and
  the mapping from version to labels, and fails with NotFound if the secret is unknown.\<close>

definition store_describe :: "string \<Rightarrow> store \<Rightarrow> error + describe_output" where
  "store_describe a st =
     (case st a of
        None \<Rightarrow> Inl NotFound
      | Some sec \<Rightarrow>
          Inr \<lparr>RotationEnabled = Some (rotation sec),
               VersionIdsToStages = Some (map (\<lambda>e. (fst e, labels (snd e))) (entries sec))\<rparr>)"

text \<open>Modelled from the spec: the selector \<open>{versionId?, stageLabel?}\<close> of
  \<open>getSecretValue\<close>, which the source passes as \<open>VersionId\<close> and \<open>VersionStage\<close>: a
  version matches if it has the id, when one is given, and carries the label.\<close>

definition selects :: "string option \<Rightarrow> string \<Rightarrow> string \<times> secret_version \<Rightarrow> bool" where
  "selects vid l e \<longleftrightarrow>
     (case vid of None \<Rightarrow> True | Some k \<Rightarrow> fst e = k) \<and> l \<in> set (labels (snd e))"

text \<open>Modelled from the spec: \<open>getSecretValue(secretId, {versionId?, stageLabel?})\<close>
  returns the value of the first version the selector matches and fails with NotFound if
  no version matches; a version without a value has nothing to return and is not found
  either (the lookup failure that makes \<open>createSecret\<close> generate).\<close>

definition store_get :: "string \<Rightarrow> string option \<Rightarrow> string \<Rightarrow> store \<Rightarrow> error + get_output" where
  "store_get a vid l st =
     (case st a of
        None \<Rightarrow> Inl NotFound
      | Some sec \<Rightarrow>
          (case find (selects vid l) (entries sec) of
             None \<Rightarrow> Inl NotFound
           | Some e \<Rightarrow>
               (case content (snd e) of
                  None \<Rightarrow> Inl NotFound
                | Some x \<Rightarrow> Inr \<lparr>SecretString = Some x\<rparr>)))"

text \<open>Modelled from the spec: labels of a version form a set (section 3); attaching
  labels keeps the ones the version has and adds the missing ones.\<close>

definition add_labels :: "string list \<Rightarrow> string list \<Rightarrow> string list" where
  "add_labels ls old = old @ filter (\<lambda>l. l \<notin> set old) ls"

text \<open>Modelled from the spec: the write of \<open>putSecretValue\<close> on the version with the
  given id: the value is set and the labels are attached.\<close>

definition write_version :: "string \<Rightarrow> string \<Rightarrow> string list \<Rightarrow> string \<times> secret_version \<Rightarrow> string \<times> secret_version" where
  "write_version t x ls e =
     (if fst e = t
      then (t, \<lparr>labels = add_labels ls (labels (snd e)), content = Some x\<rparr>)
      else e)"

text \<open>Modelled from the spec: \<open>putSecretValue(secretId, versionId, value, labels)\<close> is a
  conditional create: it fails once the version has a value (put-if-absent by
  client-request-token); otherwise it gives the version the value and the labels, creating
  the version if the secret does not have it.\<close>

definition store_put ::
  "string \<Rightarrow> string \<Rightarrow> string \<Rightarrow> string list \<Rightarrow> store \<Rightarrow> (error + unit) \<times> store" where
  "store_put a t x ls st =
     (case st a of
        None \<Rightarrow> (Inl NotFound, st)
      | Some sec \<Rightarrow>
          (case map_of (entries sec) t of
             None \<Rightarrow>
               (Inr (), st(a \<mapsto> sec\<lparr>entries := entries sec @ [(t, \<lparr>labels = ls, content = Some x\<rparr>)]\<rparr>))
           | Some v \<Rightarrow>
               if content v \<noteq> None then (Inl (Thrown ''ResourceExistsException''), st)
               else (Inr (), st(a \<mapsto> sec\<lparr>entries := map (write_version t x ls) (entries sec)\<rparr>))))"

text \<open>Modelled from the spec: the relabeling of \<open>moveStageVersion\<close> on one version: the
  label leaves the version named \<open>from\<close> and lands on the version named \<open>to\<close>.\<close>

definition move_label :: "string \<Rightarrow> string \<Rightarrow> string \<Rightarrow> string \<times> secret_version \<Rightarrow> string \<times> secret_version" where
  "move_label l to from e =
     (let removed = (if fst e = from then removeAll l (labels (snd e)) else labels (snd e));
          added = (if fst e = to then add_labels [l] removed else removed)
      in (fst e, (snd e)\<lparr>labels := added\<rparr>))"

text \<open>Modelled from the spec: \<open>moveStageVersion(secretId, label, toVersionId,
  fromVersionId)\<close>, which the source sends as \<open>UpdateSecretVersionStageCommand\<close>, is one
  atomic relabeling: the label leaves \<open>fromVersionId\<close> and lands on \<open>toVersionId\<close> in the
  same step. It fails with NotFound if the secret or the target version is unknown.\<close>

definition store_update ::
  "string \<Rightarrow> string \<Rightarrow> string \<Rightarrow> string \<Rightarrow> store \<Rightarrow> (error + unit) \<times> store" where
  "store_update a l to from st =
     (case st a of
        None \<Rightarrow> (Inl NotFound, st)
      | Some sec \<Rightarrow>
          if to \<notin> fst ` set (entries sec) then (Inl NotFound, st)
          else (Inr (), st(a \<mapsto> sec\<lparr>entries := map (move_label l to from) (entries sec)\<rparr>)))"

text \<open>Modelled from the spec: the collaborators of section 6 with this store behind the
  client. The three extension points belong to a subclass the repository does not
  hold: \<open>gen\<close> is the value \<open>generateSecret\<close> produces, which may depend on the store
  but does not write to it; \<open>setSecret\<close> and \<open>testSecret\<close> act on the downstream service
  only. The subclass adds no further member. A re-entered \<open>doRotate\<close> describes a secret
  without an identifier, which the store does not know: it throws NotFound.\<close>

definition store_env :: "(args \<Rightarrow> store \<Rightarrow> error + string) \<Rightarrow> store env" where
  "store_env gen =
     \<lparr>describeSecret = store_describe,
      getSecretValue = store_get,
      putSecretValue = store_put,
      updateSecretVersionStage = store_update,
      generateSecret = (\<lambda>x st. (gen x st, st)),
      setSecret = (\<lambda>x st. (Inr (), st)),
      testSecret = (\<lambda>x st. (Inr (), st)),
      otherMember = instance_members (\<lambda>x st. (Inl NotFound, st))\<rparr>"

text \<open>Modelled from the spec: the versions of a secret that carry a label, in
  enumeration order.\<close>

definition holders :: "string \<Rightarrow> secret \<Rightarrow> string list" where
  "holders l sec = map fst (filter (\<lambda>e. l \<in> set (labels (snd e))) (entries sec))"

text \<open>Modelled from the spec: the invariant of section 3, which the store enforces:
  version ids are unique and at most one version holds CURRENT.\<close>

definition well_staged :: "secret \<Rightarrow> bool" where
  "well_staged sec \<longleftrightarrow> distinct (map fst (entries sec)) \<and> length (holders AWSCURRENT sec) \<le> 1"

text \<open>The scenario of section 8: secret \<open>db/app\<close> with \<open>v1\<close> current, \<open>v2\<close> staged
  PENDING and not yet written, and an older \<open>v0\<close> labelled previous.\<close>

definition db_app :: secret where
  "db_app =
     \<lparr>rotation = True,
      entries = [(''v0'', \<lparr>labels = [''AWSPREVIOUS''], content = Some ''older-password''\<rparr>),
                 (''v1'', \<lparr>labels = [AWSCURRENT], content = Some ''old-password''\<rparr>),
                 (''v2'', \<lparr>labels = [AWSPENDING], content = None\<rparr>)]\<rparr>"

definition store0 :: store where
  "store0 = Map.empty(''db/app'' \<mapsto> db_app)"

definition gen0 :: "args \<Rightarrow> store \<Rightarrow> error + string" where
  "gen0 x st = Inr ''new-password''"

text \<open>Two stores in an unexpected state: one whose current value is the empty string,
  one where no version holds CURRENT.\<close>

definition store_blank :: store where
  "store_blank =
     Map.empty(''db/app'' \<mapsto>
       \<lparr>rotation = True,
        entries = [(''v1'', \<lparr>labels = [AWSCURRENT], content = Some []\<rparr>),
                   (''v2'', \<lparr>labels = [AWSPENDING], content = None\<rparr>)]\<rparr>)"

definition store_orphan :: store where
  "store_orphan =
     Map.empty(''db/app'' \<mapsto>
       \<lparr>rotation = True,
        entries = [(''v2'', \<lparr>labels = [AWSPENDING], content = Some ''new-password''\<rparr>)]\<rparr>)"

text \<open>Two clients without a store behind them: one whose outputs leave the optional
  fields undefined, and one that holds a current value but refuses the read of a
  version by id. Both answer any describe with rotation enabled and no stage mapping,
  so a re-entered \<open>doRotate\<close>, whose token is undefined, finds no such key and throws
  the unknown-version error.\<close>

definition bare_env :: "unit env" where
  "bare_env =
     \<lparr>describeSecret = (\<lambda>a w. Inr \<lparr>RotationEnabled = Some True, VersionIdsToStages = None\<rparr>),
      getSecretValue = (\<lambda>a v l w. Inr \<lparr>SecretString = None\<rparr>),
      putSecretValue = (\<lambda>a t x ls w. (Inr (), w)),
      updateSecretVersionStage = (\<lambda>a l to from w. (Inr (), w)),
      generateSecret = (\<lambda>x w. (Inr ''new-password'', w)),
      setSecret = (\<lambda>x w. (Inr (), w)),
      testSecret = (\<lambda>x w. (Inr (), w)),
      otherMember = instance_members (\<lambda>x w. (Inl UnknownVersion, w))\<rparr>"

definition denied_env :: "unit env" where
  "denied_env =
     \<lparr>describeSecret = (\<lambda>a w. Inr \<lparr>RotationEnabled = Some True, VersionIdsToStages = None\<rparr>),
      getSecretValue =
        (\<lambda>a v l w. if v = None then Inr \<lparr>SecretString = Some ''old-password''\<rparr>
                    else Inl (Thrown ''AccessDeniedException'')),
      putSecretValue = (\<lambda>a t x ls w. (Inr (), w)),
      updateSecretVersionStage = (\<lambda>a l to from w. (Inr (), w)),
      generateSecret = (\<lambda>x w. (Inr ''new-password'', w)),
      setSecret = (\<lambda>x w. (Inr (), w)),
      testSecret = (\<lambda>x w. (Inr (), w)),
      otherMember = instance_members (\<lambda>x w. (Inl UnknownVersion, w))\<rparr>"

subsection \<open>Reading traces\<close>

text \<open>What \<open>createSecret\<close> has recorded once both of its reads are done.\<close>

definition reads_done :: "args \<Rightarrow> call list" where
  "reads_done x = [Called ''createSecret'' x,
                   Sent (GetSecretValueCommand (arn x) None AWSCURRENT),
                   Sent (GetSecretValueCommand (arn x) (Some (token x)) AWSPENDING)]"

text \<open>The commands of a trace that ask the store to change: puts and stage moves.\<close>

fun is_write :: "call \<Rightarrow> bool" where
  "is_write (Sent (PutSecretValueCommand a t x ls)) = True"
| "is_write (Sent (UpdateSecretVersionStageCommand a l to from)) = True"
| "is_write _ = False"

definition writes :: "call list \<Rightarrow> call list" where
  "writes tr = filter is_write tr"

section \<open>Properties\<close>

subsection \<open>Unfolding the wrappers\<close>

lemmas wrapper_defs =
  record_call_def send_describe_def send_get_def send_put_def send_update_def call_member_def

lemmas store_defs =
  store_env_def store_describe_def store_get_def store_put_def store_update_def
  selects_def write_version_def add_labels_def move_label_def
  instance_members_def inherited_member_def

lemmas scenario_defs = store0_def db_app_def gen0_def store_blank_def store_orphan_def

lemma store_env_simps:
  "describeSecret (store_env gen) = store_describe"
  "getSecretValue (store_env gen) = store_get"
  "putSecretValue (store_env gen) = store_put"
  "updateSecretVersionStage (store_env gen) = store_update"
  "generateSecret (store_env gen) x st = (gen x st, st)"
  by (simp_all add: store_env_def)

lemma well_staged_db_app: "well_staged db_app"
  by (simp add: well_staged_def holders_def db_app_def)

subsection \<open>Writes in a trace\<close>

lemma writes_append: "writes (tr @ tr') = writes tr @ writes tr'"
  by (simp add: writes_def)

lemma writes_simps:
  "writes [] = []"
  "writes (c # tr) = (if is_write c then c # writes tr else writes tr)"
  by (simp_all add: writes_def)

lemma writes_reads_done: "writes (reads_done x) = []"
  by (simp add: writes_def reads_done_def)

subsection \<open>The dispatcher\<close>

lemma key_of_lookup: "map_of versions t = Some ls \<Longrightarrow> t \<in> set (Object_keys versions)"
  by (auto simp: Object_keys_def dest: map_of_SomeD intro: rev_image_eqI)

text \<open>Once the metadata is read, rotation is enabled and the token is a key of the stage
  mapping, \<open>doRotate\<close> is decided by the labels of the token.\<close>

lemma doRotate_validated:
  assumes "describeSecret env a w = Inr metadata"
    and "RotationEnabled metadata = Some True"
    and "VersionIdsToStages metadata = Some versions"
    and "map_of versions t = Some ls"
  shows "doRotate env \<lparr>SecretId = a, ClientRequestToken = t, Step = step\<rparr> (w, tr) =
     (if AWSCURRENT \<in> set ls then (Inr (), (w, tr @ [Sent (DescribeSecretCommand a)]))
      else if AWSPENDING \<notin> set ls then (Inl NotPending, (w, tr @ [Sent (DescribeSecretCommand a)]))
      else invoke_step env step \<lparr>arn = a, token = t\<rparr> (w, tr @ [Sent (DescribeSecretCommand a)]))"
  using assms key_of_lookup[OF assms(4)]
  by (simp add: doRotate_def send_describe_def record_call_def js_in_def stages_of_def)

text \<open>
  Claim C3. When the version of the token already carries AWSCURRENT in the stage mapping
  the store reports (the earlier checks of the dispatcher having passed: the metadata was
  read and rotation is enabled), \<open>doRotate\<close> returns normally whatever the step is. The
  trace gains the one describe command and nothing else, so no method of the object is
  entered and no write is sent, and the world is as it was.
\<close>

theorem doRotate_already_current:
  assumes "describeSecret env a w = Inr metadata"
    and "RotationEnabled metadata = Some True"
    and "VersionIdsToStages metadata = Some versions"
    and "map_of versions t = Some ls"
    and "AWSCURRENT \<in> set ls"
  shows "doRotate env \<lparr>SecretId = a, ClientRequestToken = t, Step = step\<rparr> (w, tr) =
           (Inr (), (w, tr @ [Sent (DescribeSecretCommand a)]))"
  using assms by (simp add: doRotate_validated)

theorem doRotate_already_current_witness:
  "doRotate (store_env gen0)
     \<lparr>SecretId = ''db/app'', ClientRequestToken = ''v1'', Step = ''finishSecret''\<rparr> (store0, []) =
   (Inr (), (store0, [Sent (DescribeSecretCommand ''db/app'')]))"
  using doRotate_already_current [of "store_env gen0" "''db/app''" store0
      "\<lparr>RotationEnabled = Some True,
        VersionIdsToStages = Some [(''v0'', [''AWSPREVIOUS'']), (''v1'', [AWSCURRENT]), (''v2'', [AWSPENDING])]\<rparr>"
      "[(''v0'', [''AWSPREVIOUS'']), (''v1'', [AWSCURRENT]), (''v2'', [AWSPENDING])]"
      "''v1''" "[AWSCURRENT]" "''finishSecret''" "[]"]
  by (simp add: store_defs scenario_defs)

text \<open>
  Claim C7. When the token is a key of the stage mapping and its labels include neither
  AWSCURRENT nor AWSPENDING (the metadata was read and rotation is enabled),
  \<open>doRotate\<close> throws the not-pending error. The trace gains only the describe command:
  no method of the object has been entered.
\<close>

theorem doRotate_not_pending:
  assumes "describeSecret env a w = Inr metadata"
    and "RotationEnabled metadata = Some True"
    and "VersionIdsToStages metadata = Some versions"
    and "map_of versions t = Some ls"
    and "AWSCURRENT \<notin> set ls" and "AWSPENDING \<notin> set ls"
  shows "doRotate env \<lparr>SecretId = a, ClientRequestToken = t, Step = step\<rparr> (w, tr) =
           (Inl NotPending, (w, tr @ [Sent (DescribeSecretCommand a)]))"
  using assms by (simp add: doRotate_validated)

theorem doRotate_not_pending_witness:
  "doRotate (store_env gen0)
     \<lparr>SecretId = ''db/app'', ClientRequestToken = ''v0'', Step = ''createSecret''\<rparr> (store0, []) =
   (Inl NotPending, (store0, [Sent (DescribeSecretCommand ''db/app'')]))"
  using doRotate_not_pending [of "store_env gen0" "''db/app''" store0
      "\<lparr>RotationEnabled = Some True,
        VersionIdsToStages = Some [(''v0'', [''AWSPREVIOUS'']), (''v1'', [AWSCURRENT]), (''v2'', [AWSPENDING])]\<rparr>"
      "[(''v0'', [''AWSPREVIOUS'']), (''v1'', [AWSCURRENT]), (''v2'', [AWSPENDING])]"
      "''v0''" "[''AWSPREVIOUS'']" "''createSecret''" "[]"]
  by (simp add: store_defs scenario_defs)

text \<open>
  The step is looked up as a property of the object. A name that resolves to nothing is
  called all the same, which the runtime answers with its type error.
\<close>

lemma invoke_step_unknown:
  "step \<notin> set [''createSecret'', ''setSecret'', ''testSecret'', ''finishSecret'', ''generateSecret''] \<Longrightarrow>
   otherMember env step = None \<Longrightarrow> invoke_step env step x s = (Inl TypeError, s)"
  by (simp add: invoke_step_def)

text \<open>
  Claim C8, as the code has it. For a request that passes the checks of the dispatcher,
  a step that names one of the four phases runs the handler of that name, and a step
  that resolves to no member of the object fails with the type error of the runtime.
  The class has no unknown-step error of its own: a step that names another member of
  the object, such as \<open>generateSecret\<close>, runs that member.
\<close>

theorem doRotate_dispatch:
  assumes "describeSecret env a w = Inr metadata"
    and "RotationEnabled metadata = Some True"
    and "VersionIdsToStages metadata = Some versions"
    and "map_of versions t = Some ls"
    and "AWSCURRENT \<notin> set ls" and "AWSPENDING \<in> set ls"
  shows "doRotate env \<lparr>SecretId = a, ClientRequestToken = t, Step = step\<rparr> (w, tr) =
    (let x = \<lparr>arn = a, token = t\<rparr>; s1 = (w, tr @ [Sent (DescribeSecretCommand a)]) in
     if step = ''createSecret'' then createSecret env x s1
     else if step = ''finishSecret'' then finishSecret env x s1
     else if step = ''setSecret'' then
       (case setSecret env x w of (r, w') \<Rightarrow> (r, (w', snd s1 @ [Called ''setSecret'' x])))
     else if step = ''testSecret'' then
       (case testSecret env x w of (r, w') \<Rightarrow> (r, (w', snd s1 @ [Called ''testSecret'' x])))
     else if step = ''generateSecret'' then
       (case generateSecret env x w of
          (Inl e, w') \<Rightarrow> (Inl e, (w', snd s1 @ [Called ''generateSecret'' x]))
        | (Inr v, w') \<Rightarrow> (Inr (), (w', snd s1 @ [Called ''generateSecret'' x])))
     else
       (case otherMember env step of
          None \<Rightarrow> (Inl TypeError, s1)
        | Some f \<Rightarrow> (case f x w of (r, w') \<Rightarrow> (r, (w', snd s1 @ [Called step x])))))"
  using assms
  by (simp add: doRotate_validated invoke_step_def call_member_def Let_def split: prod.split sum.split option.split)

theorem doRotate_dispatch_witness:
  "doRotate (store_env gen0) \<lparr>SecretId = ''db/app'', ClientRequestToken = ''v2'', Step = ''rollback''\<rparr> (store0, []) =
     (Inl TypeError, (store0, [Sent (DescribeSecretCommand ''db/app'')]))"
  using doRotate_dispatch [of "store_env gen0" "''db/app''" store0
      "\<lparr>RotationEnabled = Some True,
        VersionIdsToStages = Some [(''v0'', [''AWSPREVIOUS'']), (''v1'', [AWSCURRENT]), (''v2'', [AWSPENDING])]\<rparr>"
      "[(''v0'', [''AWSPREVIOUS'']), (''v1'', [AWSCURRENT]), (''v2'', [AWSPENDING])]"
      "''v2''" "[AWSPENDING]" "''rollback''" "[]"]
  by (simp add: store_defs scenario_defs)

text \<open>
  Claim C8, as stated, fails: \<open>generateSecret\<close> is none of the four phase names, and a
  request with that step returns normally after calling \<open>generateSecret\<close>.
\<close>

theorem unknown_step_counterexample:
  "''generateSecret'' \<notin> {''createSecret'', ''setSecret'', ''testSecret'', ''finishSecret''} \<and>
   doRotate (store_env gen0)
     \<lparr>SecretId = ''db/app'', ClientRequestToken = ''v2'', Step = ''generateSecret''\<rparr> (store0, []) =
   (Inr (), (store0, [Sent (DescribeSecretCommand ''db/app''),
                      Called ''generateSecret'' \<lparr>arn = ''db/app'', token = ''v2''\<rparr>]))"
  by (simp add: doRotate_def invoke_step_def js_in_def Object_keys_def stages_of_def
        wrapper_defs store_defs scenario_defs Let_def)

subsection \<open>createSecret, run by run\<close>

lemma createSecret_current_fails:
  "getSecretValue env (arn x) None AWSCURRENT w = Inl e \<Longrightarrow>
   createSecret env x (w, tr) =
     (Inl e, (w, tr @ [Called ''createSecret'' x, Sent (GetSecretValueCommand (arn x) None AWSCURRENT)]))"
  by (simp add: createSecret_def wrapper_defs)

lemma createSecret_current_falsy:
  "getSecretValue env (arn x) None AWSCURRENT w = Inr c \<Longrightarrow> falsy (SecretString c) \<Longrightarrow>
   createSecret env x (w, tr) =
     (Inl NoCurrentSecret, (w, tr @ [Called ''createSecret'' x, Sent (GetSecretValueCommand (arn x) None AWSCURRENT)]))"
  by (simp add: createSecret_def wrapper_defs)

lemma createSecret_pending_found:
  "getSecretValue env (arn x) None AWSCURRENT w = Inr c \<Longrightarrow> \<not> falsy (SecretString c) \<Longrightarrow>
   getSecretValue env (arn x) (Some (token x)) AWSPENDING w = Inr p \<Longrightarrow>
   createSecret env x (w, tr) = (Inr (), (w, tr @ reads_done x))"
  by (simp add: createSecret_def wrapper_defs reads_done_def)

lemma createSecret_pending_fails:
  "getSecretValue env (arn x) None AWSCURRENT w = Inr c \<Longrightarrow> \<not> falsy (SecretString c) \<Longrightarrow>
   getSecretValue env (arn x) (Some (token x)) AWSPENDING w = Inl e \<Longrightarrow>
   error_name e \<noteq> ResourceNotFoundException \<Longrightarrow>
   createSecret env x (w, tr) = (Inl e, (w, tr @ reads_done x))"
  by (simp add: createSecret_def wrapper_defs reads_done_def)

lemma createSecret_generate_fails:
  "getSecretValue env (arn x) None AWSCURRENT w = Inr c \<Longrightarrow> \<not> falsy (SecretString c) \<Longrightarrow>
   getSecretValue env (arn x) (Some (token x)) AWSPENDING w = Inl e \<Longrightarrow>
   error_name e = ResourceNotFoundException \<Longrightarrow>
   generateSecret env x w = (Inl e', w1) \<Longrightarrow>
   createSecret env x (w, tr) = (Inl e', (w1, tr @ reads_done x @ [Called ''generateSecret'' x]))"
  by (simp add: createSecret_def wrapper_defs reads_done_def)

lemma createSecret_generated:
  "getSecretValue env (arn x) None AWSCURRENT w = Inr c \<Longrightarrow> \<not> falsy (SecretString c) \<Longrightarrow>
   getSecretValue env (arn x) (Some (token x)) AWSPENDING w = Inl e \<Longrightarrow>
   error_name e = ResourceNotFoundException \<Longrightarrow>
   generateSecret env x w = (Inr v, w1) \<Longrightarrow>
   putSecretValue env (arn x) (token x) v [AWSPENDING] w1 = (r, w2) \<Longrightarrow>
   createSecret env x (w, tr) =
     (r, (w2, tr @ reads_done x @
         [Called ''generateSecret'' x, Sent (PutSecretValueCommand (arn x) (token x) v [AWSPENDING])]))"
  by (cases r) (simp_all add: createSecret_def wrapper_defs reads_done_def)

text \<open>Every run of \<open>createSecret\<close> is one of these six.\<close>

lemma createSecret_cases [case_names current_fails no_current found pending_fails generate_fails generated]:
  obtains
    e where "getSecretValue env (arn x) None AWSCURRENT w = Inl e"
      "createSecret env x (w, tr) =
         (Inl e, (w, tr @ [Called ''createSecret'' x, Sent (GetSecretValueCommand (arn x) None AWSCURRENT)]))"
  | c where "getSecretValue env (arn x) None AWSCURRENT w = Inr c" "falsy (SecretString c)"
      "createSecret env x (w, tr) =
         (Inl NoCurrentSecret,
          (w, tr @ [Called ''createSecret'' x, Sent (GetSecretValueCommand (arn x) None AWSCURRENT)]))"
  | c p where "getSecretValue env (arn x) None AWSCURRENT w = Inr c" "\<not> falsy (SecretString c)"
      "getSecretValue env (arn x) (Some (token x)) AWSPENDING w = Inr p"
      "createSecret env x (w, tr) = (Inr (), (w, tr @ reads_done x))"
  | c e where "getSecretValue env (arn x) None AWSCURRENT w = Inr c" "\<not> falsy (SecretString c)"
      "getSecretValue env (arn x) (Some (token x)) AWSPENDING w = Inl e"
      "error_name e \<noteq> ResourceNotFoundException"
      "createSecret env x (w, tr) = (Inl e, (w, tr @ reads_done x))"
  | c e e' w1 where "getSecretValue env (arn x) None AWSCURRENT w = Inr c" "\<not> falsy (SecretString c)"
      "getSecretValue env (arn x) (Some (token x)) AWSPENDING w = Inl e"
      "error_name e = ResourceNotFoundException"
      "generateSecret env x w = (Inl e', w1)"
      "createSecret env x (w, tr) = (Inl e', (w1, tr @ reads_done x @ [Called ''generateSecret'' x]))"
  | c e v w1 r w2 where "getSecretValue env (arn x) None AWSCURRENT w = Inr c" "\<not> falsy (SecretString c)"
      "getSecretValue env (arn x) (Some (token x)) AWSPENDING w = Inl e"
      "error_name e = ResourceNotFoundException"
      "generateSecret env x w = (Inr v, w1)"
      "putSecretValue env (arn x) (token x) v [AWSPENDING] w1 = (r, w2)"
      "createSecret env x (w, tr) =
         (r, (w2, tr @ reads_done x @
               [Called ''generateSecret'' x, Sent (PutSecretValueCommand (arn x) (token x) v [AWSPENDING])]))"
proof (cases "getSecretValue env (arn x) None AWSCURRENT w")
  case (Inl e)
  from that(1) [OF Inl createSecret_current_fails [OF Inl]] show ?thesis .
next
  case cur: (Inr c)
  show ?thesis
  proof (cases "falsy (SecretString c)")
    case True
    from that(2) [OF cur True createSecret_current_falsy [OF cur True]] show ?thesis .
  next
    case ok: False
    show ?thesis
    proof (cases "getSecretValue env (arn x) (Some (token x)) AWSPENDING w")
      case (Inr p)
      from that(3) [OF cur ok Inr createSecret_pending_found [OF cur ok Inr]] show ?thesis .
    next
      case pend: (Inl e)
      show ?thesis
      proof (cases "error_name e = ResourceNotFoundException")
        case False
        from that(4) [OF cur ok pend False createSecret_pending_fails [OF cur ok pend False]]
        show ?thesis .
      next
        case nf: True
        obtain g w1 where gen: "generateSecret env x w = (g, w1)" by (cases "generateSecret env x w")
        show ?thesis
        proof (cases g)
          case (Inl e')
          note g = gen [unfolded Inl]
          from that(5) [OF cur ok pend nf g createSecret_generate_fails [OF cur ok pend nf g]]
          show ?thesis .
        next
          case (Inr v)
          obtain r w2 where put: "putSecretValue env (arn x) (token x) v [AWSPENDING] w1 = (r, w2)"
            by (cases "putSecretValue env (arn x) (token x) v [AWSPENDING] w1")
          note g = gen [unfolded Inr]
          from that(6) [OF cur ok pend nf g put createSecret_generated [OF cur ok pend nf g put]]
          show ?thesis .
        qed
      qed
    qed
  qed
qed

text \<open>A run that returns normally either found the pending value or generated and
  stored one.\<close>

lemma createSecret_success_cases:
  assumes "createSecret env x (w, tr) = (Inr (), s')"
  shows "\<exists>c. getSecretValue env (arn x) None AWSCURRENT w = Inr c \<and> \<not> falsy (SecretString c) \<and>
          ((\<exists>p. getSecretValue env (arn x) (Some (token x)) AWSPENDING w = Inr p \<and>
                s' = (w, tr @ reads_done x))
         \<or> (\<exists>e v w1 w2. getSecretValue env (arn x) (Some (token x)) AWSPENDING w = Inl e \<and>
                error_name e = ResourceNotFoundException \<and>
                generateSecret env x w = (Inr v, w1) \<and>
                putSecretValue env (arn x) (token x) v [AWSPENDING] w1 = (Inr (), w2) \<and>
                s' = (w2, tr @ reads_done x @
                       [Called ''generateSecret'' x,
                        Sent (PutSecretValueCommand (arn x) (token x) v [AWSPENDING])])))"
  using assms
  by (cases rule: createSecret_cases [of env x w tr]) auto

text \<open>
  Claim C6, as the code has it. When the read of the AWSCURRENT value returns an output
  whose \<open>SecretString\<close> is undefined or the empty string, \<open>createSecret\<close> throws the
  no-current-secret error. When the read itself fails, as the store's read does with
  not-found when no version holds AWSCURRENT, \<open>createSecret\<close> throws that error as it
  is. Either way the trace holds the entry of the method and that one read:
  \<open>generateSecret\<close> has not been called and no write has been sent, and the world is as
  it was.
\<close>

theorem createSecret_without_current:
  assumes "getSecretValue env (arn x) None AWSCURRENT w = rd"
      and "(\<exists>e. rd = Inl e) \<or> (\<exists>c. rd = Inr c \<and> (SecretString c = None \<or> SecretString c = Some ''''))"
    shows "createSecret env x (w, tr) =
             (Inl (case rd of Inl e \<Rightarrow> e | Inr c \<Rightarrow> NoCurrentSecret),
              (w, tr @ [Called ''createSecret'' x, Sent (GetSecretValueCommand (arn x) None AWSCURRENT)]))"
  using assms by (auto simp: createSecret_current_falsy createSecret_current_fails)

theorem createSecret_without_current_witness:
  "createSecret (store_env gen0) \<lparr>arn = ''db/app'', token = ''v2''\<rparr> (store_blank, []) =
     (Inl NoCurrentSecret,
      (store_blank, [Called ''createSecret'' \<lparr>arn = ''db/app'', token = ''v2''\<rparr>,
                     Sent (GetSecretValueCommand ''db/app'' None AWSCURRENT)])) \<and>
   createSecret bare_env \<lparr>arn = ''db/app'', token = ''v2''\<rparr> ((), []) =
     (Inl NoCurrentSecret,
      ((), [Called ''createSecret'' \<lparr>arn = ''db/app'', token = ''v2''\<rparr>,
            Sent (GetSecretValueCommand ''db/app'' None AWSCURRENT)])) \<and>
   createSecret (store_env gen0) \<lparr>arn = ''db/app'', token = ''v2''\<rparr> (store_orphan, []) =
     (Inl NotFound,
      (store_orphan, [Called ''createSecret'' \<lparr>arn = ''db/app'', token = ''v2''\<rparr>,
                   Sent (GetSecretValueCommand ''db/app'' None AWSCURRENT)]))"
  using createSecret_without_current [of "store_env gen0" "\<lparr>arn = ''db/app'', token = ''v2''\<rparr>"
          store_blank "Inr \<lparr>SecretString = Some []\<rparr>" "[]"]
        createSecret_without_current [of bare_env "\<lparr>arn = ''db/app'', token = ''v2''\<rparr>"
          "()" "Inr \<lparr>SecretString = None\<rparr>" "[]"]
        createSecret_without_current [of "store_env gen0" "\<lparr>arn = ''db/app'', token = ''v2''\<rparr>"
          store_orphan "Inl NotFound" "[]"]
  by (simp add: store_defs scenario_defs bare_env_def)

text \<open>
  Claim C6, as stated, fails: in a store where no version holds AWSCURRENT the current
  value is absent, and \<open>createSecret\<close> throws the not-found error of the read, not the
  no-current-secret error.
\<close>

theorem no_current_secret_counterexample:
  "store_describe ''db/app'' store_orphan =
     Inr \<lparr>RotationEnabled = Some True, VersionIdsToStages = Some [(''v2'', [AWSPENDING])]\<rparr> \<and>
   createSecret (store_env gen0) \<lparr>arn = ''db/app'', token = ''v2''\<rparr> (store_orphan, []) =
     (Inl (Thrown ResourceNotFoundException),
      (store_orphan, [Called ''createSecret'' \<lparr>arn = ''db/app'', token = ''v2''\<rparr>,
                      Sent (GetSecretValueCommand ''db/app'' None AWSCURRENT)])) \<and>
   Thrown ResourceNotFoundException \<noteq> NoCurrentSecret"
  by (simp add: createSecret_def wrapper_defs store_defs scenario_defs)

text \<open>
  Claim C5. In any run of \<open>createSecret\<close>:
  \<^item> when the read of the AWSPENDING value at the token fails, a failure named
    \<open>ResourceNotFoundException\<close> is caught and \<open>generateSecret\<close> is called; a failure
    of any other name leaves the method as the very error that was raised, with nothing
    done after the read;
  \<^item> an error that leaves the method is the no-current-secret error or the error a
    collaborator raised (the read of the current value, the read of the pending value,
    \<open>generateSecret\<close>, or the put), unchanged;
  \<^item> the method returns normally only if nothing failed except, possibly, the read of the
    pending value with the not-found name.
\<close>

theorem createSecret_swallows_only_not_found:
  assumes run: "createSecret env x (w, tr) = (r, s')"
  shows "(\<forall>c e. getSecretValue env (arn x) None AWSCURRENT w = Inr c \<and> \<not> falsy (SecretString c) \<and>
                getSecretValue env (arn x) (Some (token x)) AWSPENDING w = Inl e \<longrightarrow>
                (if error_name e = ResourceNotFoundException
                 then Called ''generateSecret'' x \<in> set (snd s')
                 else r = Inl e \<and> s' = (w, tr @ reads_done x)))
       \<and> (\<forall>e. r = Inl e \<longrightarrow>
                e = NoCurrentSecret
              \<or> getSecretValue env (arn x) None AWSCURRENT w = Inl e
              \<or> getSecretValue env (arn x) (Some (token x)) AWSPENDING w = Inl e
              \<or> fst (generateSecret env x w) = Inl e
              \<or> (\<exists>v w1. generateSecret env x w = (Inr v, w1) \<and>
                         fst (putSecretValue env (arn x) (token x) v [AWSPENDING] w1) = Inl e))
       \<and> (r = Inr () \<longrightarrow>
             (\<exists>c. getSecretValue env (arn x) None AWSCURRENT w = Inr c \<and> \<not> falsy (SecretString c))
           \<and> ((\<exists>p. getSecretValue env (arn x) (Some (token x)) AWSPENDING w = Inr p)
              \<or> (\<exists>e v w1. getSecretValue env (arn x) (Some (token x)) AWSPENDING w = Inl e \<and>
                     error_name e = ResourceNotFoundException \<and>
                     generateSecret env x w = (Inr v, w1) \<and>
                     fst (putSecretValue env (arn x) (token x) v [AWSPENDING] w1) = Inr ())))"
proof (cases rule: createSecret_cases [of env x w tr])
  case (current_fails e)
  with run show ?thesis by auto
next
  case (no_current c)
  with run show ?thesis by auto
next
  case (found c p)
  with run show ?thesis by auto
next
  case (pending_fails c e)
  with run show ?thesis by auto
next
  case (generate_fails c e e' w1)
  with run show ?thesis by auto
next
  case (generated c e v w1 r' w2)
  with run show ?thesis by (cases r') auto
qed

theorem createSecret_swallows_only_not_found_witness:
  "createSecret denied_env \<lparr>arn = ''db/app'', token = ''v2''\<rparr> ((), []) =
     (Inl (Thrown ''AccessDeniedException''), ((), reads_done \<lparr>arn = ''db/app'', token = ''v2''\<rparr>))
   \<and> fst (createSecret (store_env gen0) \<lparr>arn = ''db/app'', token = ''v2''\<rparr> (store0, [])) = Inr ()
   \<and> Called ''generateSecret'' \<lparr>arn = ''db/app'', token = ''v2''\<rparr>
       \<in> set (snd (snd (createSecret (store_env gen0) \<lparr>arn = ''db/app'', token = ''v2''\<rparr> (store0, []))))"
proof -
  let ?x = "\<lparr>arn = ''db/app'', token = ''v2''\<rparr>"
  obtain r s' where run: "createSecret denied_env ?x ((), []) = (r, s')"
    by (cases "createSecret denied_env ?x ((), [])")
  have "r = Inl (Thrown ''AccessDeniedException'') \<and> s' = ((), [] @ reads_done ?x)"
    using createSecret_swallows_only_not_found [OF run]
    by (simp add: denied_env_def)
  with run have first: "createSecret denied_env ?x ((), []) =
     (Inl (Thrown ''AccessDeniedException''), ((), reads_done ?x))" by simp
  obtain r2 s2 where run2: "createSecret (store_env gen0) ?x (store0, []) = (r2, s2)"
    by (cases "createSecret (store_env gen0) ?x (store0, [])")
  have gen: "Called ''generateSecret'' ?x \<in> set (snd s2)"
    using createSecret_swallows_only_not_found [OF run2]
    by (simp add: store_defs scenario_defs)
  have "r2 = Inr ()"
    using run2 by (simp add: createSecret_def wrapper_defs store_defs scenario_defs)
  with first run2 gen show ?thesis by simp
qed

subsection \<open>finishSecret, run by run\<close>

lemma finishSecret_describe_fails:
  "describeSecret env (arn x) w = Inl e \<Longrightarrow>
   finishSecret env x (w, tr) = (Inl e, (w, tr @ [Called ''finishSecret'' x, Sent (DescribeSecretCommand (arn x))]))"
  by (simp add: finishSecret_def wrapper_defs)

lemma finishSecret_described:
  "describeSecret env (arn x) w = Inr m \<Longrightarrow>
   finishSecret env x (w, tr) =
     (let s1 = (w, tr @ [Called ''finishSecret'' x, Sent (DescribeSecretCommand (arn x))]) in
      case VersionIdsToStages m of
        None \<Rightarrow> (Inl MissingMetadata, s1)
      | Some vs \<Rightarrow>
          (case scan_versions vs (token x) ''None'' of
             Returned \<Rightarrow> (Inr (), s1)
           | Left c \<Rightarrow>
               if c = ''None'' then (Inl NoCurrentVersionFound, s1)
               else (case updateSecretVersionStage env (arn x) AWSCURRENT (token x) c w of
                       (r, w') \<Rightarrow> (r, (w', snd s1 @ [Sent (UpdateSecretVersionStageCommand (arn x) AWSCURRENT (token x) c)])))))"
  by (simp add: finishSecret_def wrapper_defs Let_def split: option.split scan.split prod.split)

lemma scan_no_current:
  "\<forall>e \<in> set vs. AWSCURRENT \<notin> set (snd e) \<Longrightarrow> scan_versions vs t cv = Left cv"
  by (induction vs t cv rule: scan_versions.induct) auto

text \<open>A run of \<open>finishSecret\<close> sends at most one write, and that write is the stage move.\<close>

lemma finishSecret_writes:
  assumes "finishSecret env x (w, tr) = (r, (w', tr'))"
  shows "writes tr' = writes tr \<or>
         (\<exists>c. writes tr' = writes tr @ [Sent (UpdateSecretVersionStageCommand (arn x) AWSCURRENT (token x) c)])"
proof (cases "describeSecret env (arn x) w")
  case (Inl e)
  with assms show ?thesis by (auto simp: finishSecret_describe_fails writes_def)
next
  case (Inr m)
  with assms show ?thesis
    by (auto simp: finishSecret_described writes_def Let_def
          split: option.splits scan.splits if_splits prod.splits)
qed

text \<open>
  Claim C10. When the metadata has no stage mapping, or has one in which no version
  carries AWSCURRENT, \<open>finishSecret\<close> throws (the missing-metadata error in the first
  case, the no-current-version error in the second) with the world exactly as it was
  before the call and a trace that holds only the entry of the method and the describe
  command: the stage move has not been sent.
\<close>

theorem finishSecret_atomic_on_error:
  assumes "describeSecret env (arn x) w = Inr m"
      and "VersionIdsToStages m = None \<or>
           (\<exists>vs. VersionIdsToStages m = Some vs \<and> (\<forall>e \<in> set vs. AWSCURRENT \<notin> set (snd e)))"
    shows "finishSecret env x (w, tr) =
             (Inl (if VersionIdsToStages m = None then MissingMetadata else NoCurrentVersionFound),
              (w, tr @ [Called ''finishSecret'' x, Sent (DescribeSecretCommand (arn x))]))"
  using assms by (auto simp: finishSecret_described scan_no_current)

theorem finishSecret_atomic_on_error_witness:
  "finishSecret bare_env \<lparr>arn = ''db/app'', token = ''v2''\<rparr> ((), []) =
     (Inl MissingMetadata,
      ((), [Called ''finishSecret'' \<lparr>arn = ''db/app'', token = ''v2''\<rparr>,
            Sent (DescribeSecretCommand ''db/app'')])) \<and>
   finishSecret (store_env gen0) \<lparr>arn = ''db/app'', token = ''v2''\<rparr> (store_orphan, []) =
     (Inl NoCurrentVersionFound,
      (store_orphan, [Called ''finishSecret'' \<lparr>arn = ''db/app'', token = ''v2''\<rparr>,
                      Sent (DescribeSecretCommand ''db/app'')]))"
  using finishSecret_atomic_on_error [of bare_env "\<lparr>arn = ''db/app'', token = ''v2''\<rparr>" "()"
          "\<lparr>RotationEnabled = Some True, VersionIdsToStages = None\<rparr>" "[]"]
        finishSecret_atomic_on_error [of "store_env gen0" "\<lparr>arn = ''db/app'', token = ''v2''\<rparr>"
          store_orphan
          "\<lparr>RotationEnabled = Some True, VersionIdsToStages = Some [(''v2'', [AWSPENDING])]\<rparr>" "[]"]
  by (simp add: store_defs scenario_defs bare_env_def)

subsection \<open>finishSecret over the store\<close>

text \<open>The scan of the described mapping finds the first holder of AWSCURRENT.\<close>

lemma scan_described:
  "scan_versions (map (\<lambda>e. (fst e, labels (snd e))) es) t cv =
     (case map fst (filter (\<lambda>e. AWSCURRENT \<in> set (labels (snd e))) es) of
        [] \<Rightarrow> Left cv
      | c # cs \<Rightarrow> if c = t then Returned else Left c)"
  by (induction es) (auto split: list.split)

lemma only_entry_of_key:
  "distinct (map fst es) \<Longrightarrow> t \<in> fst ` set es \<Longrightarrow> map fst (filter (\<lambda>e. fst e = t) es) = [t]"
proof (induction es)
  case Nil
  then show ?case by simp
next
  case (Cons e es)
  show ?case
  proof (cases "fst e = t")
    case True
    from Cons.prems have "fst e \<notin> set (map fst es)" by simp
    with True have "\<forall>e' \<in> set es. fst e' \<noteq> t" by (auto simp: image_iff)
    then have "filter (\<lambda>e. fst e = t) es = []" by (simp add: filter_empty_conv)
    with True show ?thesis by simp
  next
    case False
    with Cons show ?thesis by auto
  qed
qed

lemma carries_after_move:
  "c \<noteq> t \<Longrightarrow>
   l \<in> set (labels (snd (move_label l t c e))) \<longleftrightarrow> fst e = t \<or> (fst e \<noteq> c \<and> l \<in> set (labels (snd e)))"
  by (auto simp: move_label_def add_labels_def Let_def)

lemma fst_move_label: "fst (move_label l t c e) = fst e"
  by (simp add: move_label_def Let_def)

text \<open>After the move, the target is the only holder of the label.\<close>

lemma holders_after_move:
  assumes "distinct (map fst es)" and "t \<in> fst ` set es" and "c \<noteq> t"
    and "map fst (filter (\<lambda>e. l \<in> set (labels (snd e))) es) = [c]"
  shows "map fst (filter (\<lambda>e. l \<in> set (labels (snd e))) (map (move_label l t c) es)) = [t]"
proof -
  have only: "\<forall>e \<in> set es. l \<in> set (labels (snd e)) \<longrightarrow> fst e = c"
  proof (intro ballI impI)
    fix e assume "e \<in> set es" and "l \<in> set (labels (snd e))"
    then have "fst e \<in> set (map fst (filter (\<lambda>e. l \<in> set (labels (snd e))) es))" by force
    with assms(4) show "fst e = c" by simp
  qed
  have "filter ((\<lambda>e. l \<in> set (labels (snd e))) \<circ> move_label l t c) es = filter (\<lambda>e. fst e = t) es"
    using only assms(3) by (intro filter_cong) (auto simp: carries_after_move)
  then have "map fst (filter (\<lambda>e. l \<in> set (labels (snd e))) (map (move_label l t c) es))
               = map fst (filter (\<lambda>e. fst e = t) es)"
    by (simp add: filter_map fst_move_label comp_def)
  with only_entry_of_key [OF assms(1,2)] show ?thesis by simp
qed

lemma finishSecret_store:
  assumes "st a = Some sec"
  shows "finishSecret (store_env gen) \<lparr>arn = a, token = t\<rparr> (st, tr) =
     (let x = \<lparr>arn = a, token = t\<rparr>;
          tr1 = tr @ [Called ''finishSecret'' x, Sent (DescribeSecretCommand a)] in
      case holders AWSCURRENT sec of
        [] \<Rightarrow> (Inl NoCurrentVersionFound, (st, tr1))
      | c # cs \<Rightarrow>
          if c = t then (Inr (), (st, tr1))
          else if c = ''None'' then (Inl NoCurrentVersionFound, (st, tr1))
          else if t \<notin> fst ` set (entries sec)
            then (Inl NotFound, (st, tr1 @ [Sent (UpdateSecretVersionStageCommand a AWSCURRENT t c)]))
          else (Inr (), (st(a \<mapsto> sec\<lparr>entries := map (move_label AWSCURRENT t c) (entries sec)\<rparr>),
                         tr1 @ [Sent (UpdateSecretVersionStageCommand a AWSCURRENT t c)])))"
proof -
  have d: "describeSecret (store_env gen) (arn \<lparr>arn = a, token = t\<rparr>) st =
      Inr \<lparr>RotationEnabled = Some (rotation sec),
           VersionIdsToStages = Some (map (\<lambda>e. (fst e, labels (snd e))) (entries sec))\<rparr>"
    using assms by (simp add: store_env_def store_describe_def)
  show ?thesis
    unfolding finishSecret_described [OF d]
    using assms
    by (simp add: scan_described holders_def Let_def store_env_def store_update_def
          split: list.split)
qed

lemma single_holder: "length xs \<le> 1 \<Longrightarrow> xs = c # cs \<Longrightarrow> cs = []"
  by (cases cs) auto

lemma finishSecret_store_success:
  assumes "st a = Some sec" and "well_staged sec"
    and "finishSecret (store_env gen) \<lparr>arn = a, token = t\<rparr> (st, tr) = (Inr (), (st', tr'))"
  shows "(holders AWSCURRENT sec = [t] \<and> st' = st \<and>
          tr' = tr @ [Called ''finishSecret'' \<lparr>arn = a, token = t\<rparr>, Sent (DescribeSecretCommand a)])
       \<or> (\<exists>c. c \<noteq> t \<and> holders AWSCURRENT sec = [c] \<and>
               st' = st(a \<mapsto> sec\<lparr>entries := map (move_label AWSCURRENT t c) (entries sec)\<rparr>) \<and>
               holders AWSCURRENT (sec\<lparr>entries := map (move_label AWSCURRENT t c) (entries sec)\<rparr>) = [t] \<and>
               tr' = tr @ [Called ''finishSecret'' \<lparr>arn = a, token = t\<rparr>, Sent (DescribeSecretCommand a),
                           Sent (UpdateSecretVersionStageCommand a AWSCURRENT t c)])"
proof (cases "holders AWSCURRENT sec")
  case Nil
  with assms show ?thesis by (simp add: finishSecret_store Let_def)
next
  case (Cons c cs)
  with assms(2) have cs: "cs = []" by (auto simp: well_staged_def intro: single_holder)
  show ?thesis
  proof (cases "c = t")
    case True
    with assms Cons cs show ?thesis by (simp add: finishSecret_store Let_def)
  next
    case False
    with assms Cons cs have mem: "t \<in> fst ` set (entries sec)"
      by (auto simp: finishSecret_store Let_def split: if_splits)
    from assms(2) have dist: "distinct (map fst (entries sec))" by (simp add: well_staged_def)
    have "holders AWSCURRENT (sec\<lparr>entries := map (move_label AWSCURRENT t c) (entries sec)\<rparr>) = [t]"
      using holders_after_move [OF dist mem False, of AWSCURRENT] Cons cs
      by (simp add: holders_def)
    with assms Cons cs False mem show ?thesis
      by (auto simp: finishSecret_store Let_def split: if_splits)
  qed
qed

text \<open>
  Claim C1. Over the store, with unique version ids and at most one version holding
  AWSCURRENT before the call (the invariant of the data model): when \<open>finishSecret\<close>
  returns normally, the token is the one and only holder of AWSCURRENT afterwards.
  Either the token held it already and nothing was sent beyond the describe, or the
  method sent exactly one write, a single \<open>UpdateSecretVersionStageCommand\<close> that names
  both the token to move the label to and the previous holder to remove it from.
\<close>

theorem finishSecret_single_move:
  assumes "st a = Some sec" and "well_staged sec"
    and "finishSecret (store_env gen) \<lparr>arn = a, token = t\<rparr> (st, tr) = (Inr (), (st', tr'))"
  shows "(\<exists>sec'. st' a = Some sec' \<and> holders AWSCURRENT sec' = [t]) \<and>
         (st' = st \<and>
          tr' = tr @ [Called ''finishSecret'' \<lparr>arn = a, token = t\<rparr>, Sent (DescribeSecretCommand a)]
        \<or> (\<exists>c. c \<noteq> t \<and> holders AWSCURRENT sec = [c] \<and>
                tr' = tr @ [Called ''finishSecret'' \<lparr>arn = a, token = t\<rparr>,
                            Sent (DescribeSecretCommand a),
                            Sent (UpdateSecretVersionStageCommand a AWSCURRENT t c)]))"
  using finishSecret_store_success [OF assms] assms(1) by auto

theorem finishSecret_single_move_witness:
  "finishSecret (store_env gen0) \<lparr>arn = ''db/app'', token = ''v2''\<rparr> (store0, []) =
     (Inr (),
      (store0(''db/app'' \<mapsto> db_app\<lparr>entries := map (move_label AWSCURRENT ''v2'' ''v1'') (entries db_app)\<rparr>),
       [Called ''finishSecret'' \<lparr>arn = ''db/app'', token = ''v2''\<rparr>,
        Sent (DescribeSecretCommand ''db/app''),
        Sent (UpdateSecretVersionStageCommand ''db/app'' AWSCURRENT ''v2'' ''v1'')]))
   \<and> holders AWSCURRENT (db_app\<lparr>entries := map (move_label AWSCURRENT ''v2'' ''v1'') (entries db_app)\<rparr>)
       = [''v2'']"
proof -
  have sec: "store0 ''db/app'' = Some db_app" by (simp add: store0_def)
  have run: "finishSecret (store_env gen0) \<lparr>arn = ''db/app'', token = ''v2''\<rparr> (store0, []) =
     (Inr (),
      (store0(''db/app'' \<mapsto> db_app\<lparr>entries := map (move_label AWSCURRENT ''v2'' ''v1'') (entries db_app)\<rparr>),
       [Called ''finishSecret'' \<lparr>arn = ''db/app'', token = ''v2''\<rparr>,
        Sent (DescribeSecretCommand ''db/app''),
        Sent (UpdateSecretVersionStageCommand ''db/app'' AWSCURRENT ''v2'' ''v1'')]))"
    by (simp add: finishSecret_store [of store0 "''db/app''" db_app, OF sec] holders_def db_app_def)
  from finishSecret_single_move [of store0 "''db/app''" db_app, OF sec well_staged_db_app run] run
  show ?thesis by simp
qed

text \<open>
  Claim C4. Over the store, under the same invariant, take two invocations of
  \<open>finishSecret\<close> for the same secret and token, one after the other. If the first
  returns normally, the second finds the token holding AWSCURRENT and returns after the
  describe alone, so both together send at most one stage move. If the first throws, it
  has left the store as it was, and the second sends at most one stage move.
\<close>

theorem finishSecret_twice:
  assumes "st a = Some sec" and "well_staged sec"
    and first: "finishSecret (store_env gen) \<lparr>arn = a, token = t\<rparr> (st, tr) = (r1, (st1, tr1))"
    and second: "finishSecret (store_env gen) \<lparr>arn = a, token = t\<rparr> (st1, tr1) = (r2, (st2, tr2))"
  shows "(r1 = Inr () \<longrightarrow>
            r2 = Inr () \<and> st2 = st1 \<and>
            tr2 = tr1 @ [Called ''finishSecret'' \<lparr>arn = a, token = t\<rparr>, Sent (DescribeSecretCommand a)] \<and>
            length (writes tr2) \<le> length (writes tr) + 1)
       \<and> (r1 \<noteq> Inr () \<longrightarrow> st1 = st \<and> length (writes tr2) \<le> length (writes tr1) + 1)"
proof (intro conjI impI)
  assume ok: "r1 = Inr ()"
  from finishSecret_store_success [OF assms(1,2) first [unfolded ok]]
  obtain sec1 where sec1: "st1 a = Some sec1" and h1: "holders AWSCURRENT sec1 = [t]"
    using assms(1) by auto
  from second show "r2 = Inr ()" and "st2 = st1"
    and tr2: "tr2 = tr1 @ [Called ''finishSecret'' \<lparr>arn = a, token = t\<rparr>, Sent (DescribeSecretCommand a)]"
    by (simp_all add: finishSecret_store [of st1 a sec1, OF sec1] h1 Let_def)
  from finishSecret_writes [OF first] have "length (writes tr1) \<le> length (writes tr) + 1"
    by auto
  with tr2 show "length (writes tr2) \<le> length (writes tr) + 1"
    by (simp add: writes_append writes_simps)
next
  assume "r1 \<noteq> Inr ()"
  with first show "st1 = st"
    by (auto simp: finishSecret_store [of st a sec, OF assms(1)] Let_def split: list.splits if_splits)
next
  from finishSecret_writes [OF second] show "length (writes tr2) \<le> length (writes tr1) + 1"
    by auto
qed

theorem finishSecret_twice_witness:
  "finishSecret (store_env gen0) \<lparr>arn = ''db/app'', token = ''v2''\<rparr>
     (store0(''db/app'' \<mapsto> db_app\<lparr>entries := map (move_label AWSCURRENT ''v2'' ''v1'') (entries db_app)\<rparr>),
      [Called ''finishSecret'' \<lparr>arn = ''db/app'', token = ''v2''\<rparr>,
       Sent (DescribeSecretCommand ''db/app''),
       Sent (UpdateSecretVersionStageCommand ''db/app'' AWSCURRENT ''v2'' ''v1'')]) =
   (Inr (),
    (store0(''db/app'' \<mapsto> db_app\<lparr>entries := map (move_label AWSCURRENT ''v2'' ''v1'') (entries db_app)\<rparr>),
     [Called ''finishSecret'' \<lparr>arn = ''db/app'', token = ''v2''\<rparr>,
      Sent (DescribeSecretCommand ''db/app''),
      Sent (UpdateSecretVersionStageCommand ''db/app'' AWSCURRENT ''v2'' ''v1''),
      Called ''finishSecret'' \<lparr>arn = ''db/app'', token = ''v2''\<rparr>,
      Sent (DescribeSecretCommand ''db/app'')]))
   \<and> finishSecret (store_env gen0) \<lparr>arn = ''db/app'', token = ''v9''\<rparr> (store0, []) =
       (Inl NotFound,
        (store0, [Called ''finishSecret'' \<lparr>arn = ''db/app'', token = ''v9''\<rparr>,
                  Sent (DescribeSecretCommand ''db/app''),
                  Sent (UpdateSecretVersionStageCommand ''db/app'' AWSCURRENT ''v9'' ''v1'')]))"
proof -
  let ?x = "\<lparr>arn = ''db/app'', token = ''v2''\<rparr>"
  let ?st1 = "store0(''db/app'' \<mapsto> db_app\<lparr>entries := map (move_label AWSCURRENT ''v2'' ''v1'') (entries db_app)\<rparr>)"
  let ?tr1 = "[Called ''finishSecret'' ?x, Sent (DescribeSecretCommand ''db/app''),
               Sent (UpdateSecretVersionStageCommand ''db/app'' AWSCURRENT ''v2'' ''v1'')]"
  have sec: "store0 ''db/app'' = Some db_app" by (simp add: store0_def)
  have first: "finishSecret (store_env gen0) ?x (store0, []) = (Inr (), (?st1, ?tr1))"
    by (simp add: finishSecret_store [of store0 "''db/app''" db_app, OF sec] holders_def db_app_def)
  obtain r2 s2 where "finishSecret (store_env gen0) ?x (?st1, ?tr1) = (r2, s2)"
    by (cases "finishSecret (store_env gen0) ?x (?st1, ?tr1)")
  moreover obtain st2 tr2 where "s2 = (st2, tr2)" by (cases s2)
  ultimately have second: "finishSecret (store_env gen0) ?x (?st1, ?tr1) = (r2, (st2, tr2))" by simp
  from finishSecret_twice [of store0 "''db/app''" db_app, OF sec well_staged_db_app first second]
  have "r2 = Inr ()" and "st2 = ?st1"
    and "tr2 = ?tr1 @ [Called ''finishSecret'' ?x, Sent (DescribeSecretCommand ''db/app'')]"
    by simp_all
  with second have promoted: "finishSecret (store_env gen0) ?x (?st1, ?tr1) =
      (Inr (), (?st1, ?tr1 @ [Called ''finishSecret'' ?x, Sent (DescribeSecretCommand ''db/app'')]))"
    by simp
  let ?y = "\<lparr>arn = ''db/app'', token = ''v9''\<rparr>"
  let ?tr9 = "[Called ''finishSecret'' ?y, Sent (DescribeSecretCommand ''db/app''),
               Sent (UpdateSecretVersionStageCommand ''db/app'' AWSCURRENT ''v9'' ''v1'')]"
  obtain st9 where failed: "finishSecret (store_env gen0) ?y (store0, []) = (Inl NotFound, (st9, ?tr9))"
    by (simp add: finishSecret_store [of store0 "''db/app''" db_app, OF sec] holders_def db_app_def)
  obtain r3 s3 where "finishSecret (store_env gen0) ?y (st9, ?tr9) = (r3, s3)"
    by (cases "finishSecret (store_env gen0) ?y (st9, ?tr9)")
  moreover obtain st3 tr3 where "s3 = (st3, tr3)" by (cases s3)
  ultimately have again: "finishSecret (store_env gen0) ?y (st9, ?tr9) = (r3, (st3, tr3))" by simp
  from finishSecret_twice [of store0 "''db/app''" db_app, OF sec well_staged_db_app failed again]
  have "st9 = store0" by simp
  with failed promoted show ?thesis by simp
qed

subsection \<open>createSecret over the store\<close>

lemma store_get_known:
  "st a = Some sec \<Longrightarrow>
   store_get a vid l st =
     (case find (selects vid l) (entries sec) of
        None \<Rightarrow> Inl NotFound
      | Some e \<Rightarrow> (case content (snd e) of None \<Rightarrow> Inl NotFound | Some x \<Rightarrow> Inr \<lparr>SecretString = Some x\<rparr>))"
  by (simp add: store_get_def)

lemma store_put_cases:
  assumes "st a = Some sec" and "store_put a t v ls st = (r, st1)"
  shows "(st1 = st \<and> r \<noteq> Inr ())
       \<or> (r = Inr () \<and> map_of (entries sec) t = None \<and>
          st1 = st(a \<mapsto> sec\<lparr>entries := entries sec @ [(t, \<lparr>labels = ls, content = Some v\<rparr>)]\<rparr>))
       \<or> (r = Inr () \<and> (\<exists>v0. map_of (entries sec) t = Some v0 \<and> content v0 = None) \<and>
          st1 = st(a \<mapsto> sec\<lparr>entries := map (write_version t v ls) (entries sec)\<rparr>))"
  using assms by (auto simp: store_put_def split: option.splits if_splits)

lemma map_of_written: "k \<noteq> t \<Longrightarrow> map_of (map (write_version t v ls) es) k = map_of es k"
  by (induction es) (auto simp: write_version_def)

lemma map_of_appended: "k \<noteq> t \<Longrightarrow> map_of (es @ [(t, n)]) k = map_of es k"
  by (induction es) auto

lemma no_key_no_selection: "map_of es t = None \<Longrightarrow> find (selects (Some t) l) es = None"
  by (induction es) (auto simp: selects_def split: if_splits)

lemma find_appended_new: "find P es = None \<Longrightarrow> find P (es @ [n]) = (if P n then Some n else None)"
  by (induction es) (auto split: if_splits)

lemma find_appended_old: "find P es = Some e \<Longrightarrow> find P (es @ [n]) = Some e"
  by (induction es) (auto split: if_splits)

lemma written_is_selected:
  "map_of es t = Some v0 \<Longrightarrow> l \<in> set ls \<Longrightarrow>
   \<exists>e'. find (selects (Some t) l) (map (write_version t v ls) es) = Some e' \<and> content (snd e') = Some v"
  by (induction es) (auto simp: selects_def write_version_def add_labels_def split: if_splits)

lemma current_survives_write:
  "find (selects None AWSCURRENT) es = Some e0 \<Longrightarrow> content (snd e0) \<noteq> None \<Longrightarrow>
   \<forall>e \<in> set es. fst e = t \<longrightarrow> content (snd e) = None \<Longrightarrow> AWSCURRENT \<notin> set ls \<Longrightarrow>
   find (selects None AWSCURRENT) (map (write_version t v ls) es) = Some e0"
  by (induction es) (auto simp: selects_def write_version_def add_labels_def split: if_splits)

lemma unwritten_key:
  assumes "distinct (map fst es)" and "map_of es t = Some v0" and "content v0 = None"
  shows "\<forall>e \<in> set es. fst e = t \<longrightarrow> content (snd e) = None"
proof (intro ballI impI)
  fix e assume "e \<in> set es" and "fst e = t"
  then have "(t, snd e) \<in> set es" by (metis prod.collapse)
  with assms(1) have "map_of es t = Some (snd e)" by (rule map_of_is_SomeI)
  with assms(2,3) show "content (snd e) = None" by simp
qed

text \<open>The two reads of \<open>createSecret\<close>, repeated after a put that succeeded.\<close>

lemma reads_after_put:
  assumes sec: "st a = Some sec" and dist: "distinct (map fst (entries sec))"
    and put: "store_put a t v [AWSPENDING] st = (Inr (), st1)"
    and cur: "store_get a None AWSCURRENT st = Inr c"
  shows "store_get a None AWSCURRENT st1 = Inr c"
    and "store_get a (Some t) AWSPENDING st1 = Inr \<lparr>SecretString = Some v\<rparr>"
proof -
  from cur sec obtain e0 where e0: "find (selects None AWSCURRENT) (entries sec) = Some e0"
      and c0: "content (snd e0) \<noteq> None"
    by (auto simp: store_get_known split: option.splits)
  from store_put_cases [OF sec put]
  consider (new) "map_of (entries sec) t = None"
      "st1 = st(a \<mapsto> sec\<lparr>entries := entries sec @ [(t, \<lparr>labels = [AWSPENDING], content = Some v\<rparr>)]\<rparr>)"
    | (old) v0 where "map_of (entries sec) t = Some v0" "content v0 = None"
      "st1 = st(a \<mapsto> sec\<lparr>entries := map (write_version t v [AWSPENDING]) (entries sec)\<rparr>)"
    by auto
  then have "store_get a None AWSCURRENT st1 = Inr c
           \<and> store_get a (Some t) AWSPENDING st1 = Inr \<lparr>SecretString = Some v\<rparr>"
  proof cases
    case new
    have "find (selects None AWSCURRENT)
            (entries sec @ [(t, \<lparr>labels = [AWSPENDING], content = Some v\<rparr>)]) = Some e0"
      using e0 by (rule find_appended_old)
    moreover have "find (selects (Some t) AWSPENDING)
            (entries sec @ [(t, \<lparr>labels = [AWSPENDING], content = Some v\<rparr>)])
          = Some (t, \<lparr>labels = [AWSPENDING], content = Some v\<rparr>)"
      using no_key_no_selection [OF new(1)] by (simp add: find_appended_new selects_def)
    ultimately show ?thesis
      using new(2) cur sec e0 by (simp add: store_get_def)
  next
    case old
    have "find (selects None AWSCURRENT) (map (write_version t v [AWSPENDING]) (entries sec)) = Some e0"
      using e0 c0 unwritten_key [OF dist old(1,2)] by (intro current_survives_write) simp_all
    moreover obtain e' where
      "find (selects (Some t) AWSPENDING) (map (write_version t v [AWSPENDING]) (entries sec)) = Some e'"
      "content (snd e') = Some v"
      using written_is_selected [OF old(1), of AWSPENDING "[AWSPENDING]" v] by auto
    ultimately show ?thesis
      using old(3) cur sec e0 by (simp add: store_get_def)
  qed
  then show "store_get a None AWSCURRENT st1 = Inr c"
    and "store_get a (Some t) AWSPENDING st1 = Inr \<lparr>SecretString = Some v\<rparr>" by simp_all
qed

text \<open>After any run of \<open>createSecret\<close> that returned normally, the token has a value
  staged AWSPENDING and a further run returns normally after its two reads, with the
  store untouched.\<close>

lemma createSecret_after_success:
  assumes "st a = Some sec" and "well_staged sec"
    and first: "createSecret (store_env gen) \<lparr>arn = a, token = t\<rparr> (st, tr) = (Inr (), (st1, tr1))"
  shows "createSecret (store_env gen) \<lparr>arn = a, token = t\<rparr> (st1, tr1) =
           (Inr (), (st1, tr1 @ reads_done \<lparr>arn = a, token = t\<rparr>))
       \<and> Called ''generateSecret'' \<lparr>arn = a, token = t\<rparr> \<notin> set (reads_done \<lparr>arn = a, token = t\<rparr>)
       \<and> writes (reads_done \<lparr>arn = a, token = t\<rparr>) = []
       \<and> (\<exists>v. store_get a (Some t) AWSPENDING st1 = Inr \<lparr>SecretString = Some v\<rparr>)
       \<and> length (writes (tr1 @ reads_done \<lparr>arn = a, token = t\<rparr>)) \<le> length (writes tr) + 1"
proof -
  let ?x = "\<lparr>arn = a, token = t\<rparr>"
  from assms(2) have dist: "distinct (map fst (entries sec))" by (simp add: well_staged_def)
  from createSecret_success_cases [OF first]
  obtain c where cur: "store_get a None AWSCURRENT st = Inr c" and ok: "\<not> falsy (SecretString c)"
    and alt: "(\<exists>p. store_get a (Some t) AWSPENDING st = Inr p \<and> (st1, tr1) = (st, tr @ reads_done ?x))
       \<or> (\<exists>v. store_put a t v [AWSPENDING] st = (Inr (), st1) \<and>
               tr1 = tr @ reads_done ?x @
                 [Called ''generateSecret'' ?x, Sent (PutSecretValueCommand a t v [AWSPENDING])])"
    by (auto simp: store_env_simps)
  have after: "store_get a None AWSCURRENT st1 = Inr c \<and>
      (\<exists>v. store_get a (Some t) AWSPENDING st1 = Inr \<lparr>SecretString = Some v\<rparr>) \<and>
      length (writes tr1) \<le> length (writes tr) + 1"
    using alt
  proof (elim disjE exE conjE)
    fix p assume p: "store_get a (Some t) AWSPENDING st = Inr p" and same: "(st1, tr1) = (st, tr @ reads_done ?x)"
    from p assms(1) have "\<exists>v. store_get a (Some t) AWSPENDING st = Inr \<lparr>SecretString = Some v\<rparr>"
      by (auto simp: store_get_known split: option.splits)
    with cur same show ?thesis by (simp add: writes_append writes_reads_done)
  next
    fix v assume put: "store_put a t v [AWSPENDING] st = (Inr (), st1)"
      and tr1: "tr1 = tr @ reads_done ?x @
                 [Called ''generateSecret'' ?x, Sent (PutSecretValueCommand a t v [AWSPENDING])]"
    from reads_after_put [OF assms(1) dist put cur] tr1 show ?thesis
      by (auto simp: writes_append writes_reads_done writes_simps)
  qed
  then obtain v where pend: "store_get a (Some t) AWSPENDING st1 = Inr \<lparr>SecretString = Some v\<rparr>" by auto
  have "createSecret (store_env gen) ?x (st1, tr1) = (Inr (), (st1, tr1 @ reads_done ?x))"
    by (rule createSecret_pending_found [where c = c and p = "\<lparr>SecretString = Some v\<rparr>"])
       (simp_all add: store_env_simps after ok pend)
  moreover have "Called ''generateSecret'' ?x \<notin> set (reads_done ?x)"
    by (simp add: reads_done_def)
  ultimately show ?thesis
    using after by (auto simp: writes_append writes_reads_done)
qed

lemma find_staged:
  "distinct (map fst es) \<Longrightarrow> map_of es t = Some u \<Longrightarrow> l \<in> set (labels u) \<Longrightarrow>
   find (selects (Some t) l) es = Some (t, u)"
  by (induction es) (auto simp: selects_def split: if_splits)

text \<open>
  Claim C2. Over the store, under the invariant of the data model, for a token staged
  AWSPENDING (what the dispatcher requires before it runs the phase) and a current value
  that is present and not empty. The first invocation of \<open>createSecret\<close> returns
  normally and leaves exactly one value staged AWSPENDING at the token: the value that
  was there, with nothing generated and nothing written, or, when there was none, the
  value \<open>generateSecret\<close> returns, written by a single put. The second invocation
  returns normally with the store untouched, so the value is the same; its trace holds
  the entry of the method and the two reads only: \<open>generateSecret\<close> is not called and
  no write is sent.
\<close>

theorem createSecret_twice:
  assumes sec: "st a = Some sec" and wf: "well_staged sec"
    and staged: "map_of (entries sec) t = Some u" and label: "AWSPENDING \<in> set (labels u)"
    and cur: "store_get a None AWSCURRENT st = Inr c" and ok: "\<not> falsy (SecretString c)"
    and gen: "content u = None \<longrightarrow> gen \<lparr>arn = a, token = t\<rparr> st = Inr v"
  shows "\<exists>st1 tr1 p.
           createSecret (store_env gen) \<lparr>arn = a, token = t\<rparr> (st, tr) = (Inr (), (st1, tr1))
         \<and> createSecret (store_env gen) \<lparr>arn = a, token = t\<rparr> (st1, tr1) =
              (Inr (), (st1, tr1 @ reads_done \<lparr>arn = a, token = t\<rparr>))
         \<and> store_get a (Some t) AWSPENDING st1 = Inr \<lparr>SecretString = Some p\<rparr>
         \<and> (case content u of
               Some q \<Rightarrow> p = q \<and> st1 = st \<and> tr1 = tr @ reads_done \<lparr>arn = a, token = t\<rparr>
             | None \<Rightarrow>
                 p = v \<and>
                 st1 = st(a \<mapsto> sec\<lparr>entries := map (write_version t v [AWSPENDING]) (entries sec)\<rparr>) \<and>
                 tr1 = tr @ reads_done \<lparr>arn = a, token = t\<rparr> @
                   [Called ''generateSecret'' \<lparr>arn = a, token = t\<rparr>,
                    Sent (PutSecretValueCommand a t v [AWSPENDING])])
         \<and> Called ''generateSecret'' \<lparr>arn = a, token = t\<rparr> \<notin> set (reads_done \<lparr>arn = a, token = t\<rparr>)
         \<and> writes (reads_done \<lparr>arn = a, token = t\<rparr>) = []"
proof -
  let ?x = "\<lparr>arn = a, token = t\<rparr>"
  let ?E = "store_env gen"
  from wf have dist: "distinct (map fst (entries sec))" by (simp add: well_staged_def)
  have found: "find (selects (Some t) AWSPENDING) (entries sec) = Some (t, u)"
    using dist staged label by (rule find_staged)
  have cur': "getSecretValue ?E (arn ?x) None AWSCURRENT st = Inr c"
    using cur by (simp add: store_env_simps)
  have quiet: "Called ''generateSecret'' ?x \<notin> set (reads_done ?x)" "writes (reads_done ?x) = []"
    by (simp add: reads_done_def) (rule writes_reads_done)
  show ?thesis
  proof (cases "content u")
    case (Some q)
    have pend: "getSecretValue ?E (arn ?x) (Some (token ?x)) AWSPENDING st = Inr \<lparr>SecretString = Some q\<rparr>"
      using sec found Some by (simp add: store_env_simps store_get_known)
    have first: "createSecret ?E ?x (st, tr) = (Inr (), (st, tr @ reads_done ?x))"
      using cur' ok pend by (rule createSecret_pending_found)
    have second: "createSecret ?E ?x (st, tr @ reads_done ?x) =
        (Inr (), (st, (tr @ reads_done ?x) @ reads_done ?x))"
      using cur' ok pend by (rule createSecret_pending_found)
    from pend have "store_get a (Some t) AWSPENDING st = Inr \<lparr>SecretString = Some q\<rparr>"
      by (simp add: store_env_simps)
    with first second Some quiet show ?thesis by auto
  next
    case None
    let ?st1 = "st(a \<mapsto> sec\<lparr>entries := map (write_version t v [AWSPENDING]) (entries sec)\<rparr>)"
    let ?tr1 = "tr @ reads_done ?x @
        [Called ''generateSecret'' ?x, Sent (PutSecretValueCommand a t v [AWSPENDING])]"
    have pend: "getSecretValue ?E (arn ?x) (Some (token ?x)) AWSPENDING st = Inl NotFound"
      using sec found None by (simp add: store_env_simps store_get_known)
    have g: "generateSecret ?E ?x st = (Inr v, st)"
      using gen None by (simp add: store_env_simps)
    have put: "store_put a t v [AWSPENDING] st = (Inr (), ?st1)"
      using sec staged None by (simp add: store_put_def)
    then have put': "putSecretValue ?E (arn ?x) (token ?x) v [AWSPENDING] st = (Inr (), ?st1)"
      by (simp add: store_env_simps)
    have "createSecret ?E ?x (st, tr) =
        (Inr (), (?st1, tr @ reads_done ?x @
           [Called ''generateSecret'' ?x, Sent (PutSecretValueCommand (arn ?x) (token ?x) v [AWSPENDING])]))"
      using cur' ok pend _ g put' by (rule createSecret_generated) simp
    then have first: "createSecret ?E ?x (st, tr) = (Inr (), (?st1, ?tr1))" by simp
    from reads_after_put [OF sec dist put cur]
    have cur1: "store_get a None AWSCURRENT ?st1 = Inr c"
      and pend1: "store_get a (Some t) AWSPENDING ?st1 = Inr \<lparr>SecretString = Some v\<rparr>"
      by simp_all
    have second: "createSecret ?E ?x (?st1, ?tr1) = (Inr (), (?st1, ?tr1 @ reads_done ?x))"
      by (rule createSecret_pending_found [where c = c and p = "\<lparr>SecretString = Some v\<rparr>"])
         (simp_all add: store_env_simps cur1 pend1 ok)
    from first second pend1 None quiet show ?thesis by auto
  qed
qed

theorem createSecret_twice_witness:
  "createSecret (store_env gen0) \<lparr>arn = ''db/app'', token = ''v2''\<rparr> (store0, []) =
     (Inr (),
      (store0(''db/app'' \<mapsto>
         db_app\<lparr>entries := map (write_version ''v2'' ''new-password'' [AWSPENDING]) (entries db_app)\<rparr>),
       reads_done \<lparr>arn = ''db/app'', token = ''v2''\<rparr> @
       [Called ''generateSecret'' \<lparr>arn = ''db/app'', token = ''v2''\<rparr>,
        Sent (PutSecretValueCommand ''db/app'' ''v2'' ''new-password'' [AWSPENDING])]))
   \<and> createSecret (store_env gen0) \<lparr>arn = ''db/app'', token = ''v2''\<rparr>
       (store0(''db/app'' \<mapsto>
          db_app\<lparr>entries := map (write_version ''v2'' ''new-password'' [AWSPENDING]) (entries db_app)\<rparr>),
        reads_done \<lparr>arn = ''db/app'', token = ''v2''\<rparr> @
        [Called ''generateSecret'' \<lparr>arn = ''db/app'', token = ''v2''\<rparr>,
         Sent (PutSecretValueCommand ''db/app'' ''v2'' ''new-password'' [AWSPENDING])]) =
     (Inr (),
      (store0(''db/app'' \<mapsto>
         db_app\<lparr>entries := map (write_version ''v2'' ''new-password'' [AWSPENDING]) (entries db_app)\<rparr>),
       reads_done \<lparr>arn = ''db/app'', token = ''v2''\<rparr> @
       [Called ''generateSecret'' \<lparr>arn = ''db/app'', token = ''v2''\<rparr>,
        Sent (PutSecretValueCommand ''db/app'' ''v2'' ''new-password'' [AWSPENDING])] @
       reads_done \<lparr>arn = ''db/app'', token = ''v2''\<rparr>))
   \<and> store_get ''db/app'' (Some ''v2'') AWSPENDING
       (store0(''db/app'' \<mapsto>
          db_app\<lparr>entries := map (write_version ''v2'' ''new-password'' [AWSPENDING]) (entries db_app)\<rparr>)) =
     Inr \<lparr>SecretString = Some ''new-password''\<rparr>"
proof -
  have sec: "store0 ''db/app'' = Some db_app" by (simp add: store0_def)
  have staged: "map_of (entries db_app) ''v2'' = Some \<lparr>labels = [AWSPENDING], content = None\<rparr>"
    by (simp add: db_app_def)
  have cur: "store_get ''db/app'' None AWSCURRENT store0 = Inr \<lparr>SecretString = Some ''old-password''\<rparr>"
    by (simp add: store_defs scenario_defs)
  from createSecret_twice [of store0 "''db/app''" db_app "''v2''"
      "\<lparr>labels = [AWSPENDING], content = None\<rparr>" "\<lparr>SecretString = Some ''old-password''\<rparr>"
      gen0 "''new-password''" "[]", OF sec well_staged_db_app staged _ cur]
  show ?thesis by (auto simp: gen0_def)
qed

lemma found_is_holder:
  assumes "find (selects None l) (entries sec) = Some e"
  shows "e \<in> set (entries sec)" and "fst e \<in> set (holders l sec)"
proof -
  from assms have "e \<in> set (entries sec) \<and> l \<in> set (labels (snd e))"
    by (auto simp: find_Some_iff selects_def in_set_conv_nth)
  then show "e \<in> set (entries sec)" and "fst e \<in> set (holders l sec)"
    by (auto simp: holders_def)
qed

lemma sole_holder:
  assumes "well_staged sec" and "k \<in> set (holders AWSCURRENT sec)" and "k' \<in> set (holders AWSCURRENT sec)"
  shows "k' = k"
proof -
  from assms(1) have "length (holders AWSCURRENT sec) \<le> 1" by (simp add: well_staged_def)
  with assms(2,3) show ?thesis
    by (cases "holders AWSCURRENT sec") (auto simp: Suc_le_eq)
qed

text \<open>
  Claim C9. Over the store, under the invariant of the data model, in every run of
  \<open>createSecret\<close>, whatever its outcome: the method sends no write at all, or exactly
  one, the put of the value \<open>generateSecret\<close> has just returned, under the token, with
  the single label AWSPENDING. Other secrets are untouched, the rotation flag is
  untouched, every version other than the token has the value and labels it had, and
  so has the version that holds AWSCURRENT.
\<close>

theorem createSecret_frame:
  assumes "st a = Some sec" and "well_staged sec"
    and run: "createSecret (store_env gen) \<lparr>arn = a, token = t\<rparr> (st, tr) = (r, (st1, tr1))"
  shows "(st1 = st \<and> writes tr1 = writes tr
          \<or> (\<exists>v. gen \<lparr>arn = a, token = t\<rparr> st = Inr v \<and>
                 writes tr1 = writes tr @ [Sent (PutSecretValueCommand a t v [AWSPENDING])]))
       \<and> (\<forall>b. b \<noteq> a \<longrightarrow> st1 b = st b)
       \<and> (\<exists>sec1. st1 a = Some sec1 \<and> rotation sec1 = rotation sec \<and>
             (\<forall>k. k \<noteq> t \<longrightarrow> map_of (entries sec1) k = map_of (entries sec) k) \<and>
             (\<forall>k \<in> set (holders AWSCURRENT sec). map_of (entries sec1) k = map_of (entries sec) k))"
proof (cases rule: createSecret_cases [of "store_env gen" "\<lparr>arn = a, token = t\<rparr>" st tr])
  case (current_fails e)
  with run assms(1) show ?thesis by (auto simp: writes_append writes_simps)
next
  case (no_current c)
  with run assms(1) show ?thesis by (auto simp: writes_append writes_simps)
next
  case (found c p)
  with run assms(1) show ?thesis by (auto simp: writes_append writes_reads_done)
next
  case (pending_fails c e)
  with run assms(1) show ?thesis by (auto simp: writes_append writes_reads_done)
next
  case (generate_fails c e e' w1)
  with run assms(1) show ?thesis
    by (auto simp: store_env_simps writes_append writes_reads_done writes_simps)
next
  case (generated c e v w1 r' w2)
  from generated(5) have gen: "gen \<lparr>arn = a, token = t\<rparr> st = Inr v" and w1: "w1 = st"
    by (auto simp: store_env_simps)
  from generated(6) w1 have put: "store_put a t v [AWSPENDING] st = (r', w2)"
    by (simp add: store_env_simps)
  from generated(7) run have st1: "st1 = w2"
    and tr1: "tr1 = tr @ reads_done \<lparr>arn = a, token = t\<rparr> @
        [Called ''generateSecret'' \<lparr>arn = a, token = t\<rparr>, Sent (PutSecretValueCommand a t v [AWSPENDING])]"
    by simp_all
  from tr1 have wr: "writes tr1 = writes tr @ [Sent (PutSecretValueCommand a t v [AWSPENDING])]"
    by (simp add: writes_append writes_reads_done writes_simps)
  from generated(1,2) assms(1) obtain e0 where
      e0: "find (selects None AWSCURRENT) (entries sec) = Some e0" and c0: "content (snd e0) \<noteq> None"
    by (auto simp: store_env_simps store_get_known split: option.splits)
  from assms(2) have dist: "distinct (map fst (entries sec))" by (simp add: well_staged_def)
  from store_put_cases [OF assms(1) put] st1
  consider (same) "st1 = st"
    | (new) "map_of (entries sec) t = None"
        "st1 = st(a \<mapsto> sec\<lparr>entries := entries sec @ [(t, \<lparr>labels = [AWSPENDING], content = Some v\<rparr>)]\<rparr>)"
    | (old) v0 where "map_of (entries sec) t = Some v0" "content v0 = None"
        "st1 = st(a \<mapsto> sec\<lparr>entries := map (write_version t v [AWSPENDING]) (entries sec)\<rparr>)"
    by auto
  then have frame: "(\<forall>b. b \<noteq> a \<longrightarrow> st1 b = st b) \<and>
      (\<exists>sec1. st1 a = Some sec1 \<and> rotation sec1 = rotation sec \<and>
         (\<forall>k. k \<noteq> t \<longrightarrow> map_of (entries sec1) k = map_of (entries sec) k) \<and>
         (st1 \<noteq> st \<longrightarrow> fst e0 \<noteq> t))"
  proof cases
    case same
    with assms(1) show ?thesis by simp
  next
    case new
    from found_is_holder(1) [OF e0] have "(fst e0, snd e0) \<in> set (entries sec)" by simp
    then have "map_of (entries sec) (fst e0) \<noteq> None"
      by (metis map_of_eq_None_iff image_eqI fst_conv)
    with new(1) have "fst e0 \<noteq> t" by auto
    with new(2) show ?thesis by (simp add: map_of_appended del: map_of_append)
  next
    case old
    from unwritten_key [OF dist old(1,2)] found_is_holder(1) [OF e0] c0 have "fst e0 \<noteq> t" by auto
    with old(3) show ?thesis by (simp add: map_of_written)
  qed
  then obtain sec1 where sec1: "st1 a = Some sec1" "rotation sec1 = rotation sec"
      "\<forall>k. k \<noteq> t \<longrightarrow> map_of (entries sec1) k = map_of (entries sec) k"
      and changed: "st1 \<noteq> st \<longrightarrow> fst e0 \<noteq> t"
    by auto
  have "\<forall>k \<in> set (holders AWSCURRENT sec). map_of (entries sec1) k = map_of (entries sec) k"
  proof
    fix k assume k: "k \<in> set (holders AWSCURRENT sec)"
    from sole_holder [OF assms(2) k found_is_holder(2) [OF e0]] have "fst e0 = k" .
    show "map_of (entries sec1) k = map_of (entries sec) k"
    proof (cases "st1 = st")
      case True
      with sec1(1) assms(1) show ?thesis by simp
    next
      case False
      with changed \<open>fst e0 = k\<close> have "k \<noteq> t" by simp
      with sec1(3) show ?thesis by simp
    qed
  qed
  with frame sec1 gen wr show ?thesis by auto
qed

theorem createSecret_frame_witness:
  "createSecret (store_env gen0) \<lparr>arn = ''db/app'', token = ''v2''\<rparr> (store0, []) =
     (Inr (),
      (store0(''db/app'' \<mapsto>
         db_app\<lparr>entries := map (write_version ''v2'' ''new-password'' [AWSPENDING]) (entries db_app)\<rparr>),
       reads_done \<lparr>arn = ''db/app'', token = ''v2''\<rparr> @
       [Called ''generateSecret'' \<lparr>arn = ''db/app'', token = ''v2''\<rparr>,
        Sent (PutSecretValueCommand ''db/app'' ''v2'' ''new-password'' [AWSPENDING])]))
   \<and> map_of (map (write_version ''v2'' ''new-password'' [AWSPENDING]) (entries db_app)) ''v1''
       = Some \<lparr>labels = [AWSCURRENT], content = Some ''old-password''\<rparr>
   \<and> map_of (map (write_version ''v2'' ''new-password'' [AWSPENDING]) (entries db_app)) ''v0''
       = map_of (entries db_app) ''v0''
   \<and> (store0(''db/app'' \<mapsto>
         db_app\<lparr>entries := map (write_version ''v2'' ''new-password'' [AWSPENDING]) (entries db_app)\<rparr>))
        ''db/other'' = store0 ''db/other''"
proof -
  let ?x = "\<lparr>arn = ''db/app'', token = ''v2''\<rparr>"
  let ?st1 = "store0(''db/app'' \<mapsto>
        db_app\<lparr>entries := map (write_version ''v2'' ''new-password'' [AWSPENDING]) (entries db_app)\<rparr>)"
  let ?tr1 = "reads_done ?x @ [Called ''generateSecret'' ?x,
                Sent (PutSecretValueCommand ''db/app'' ''v2'' ''new-password'' [AWSPENDING])]"
  have sec: "store0 ''db/app'' = Some db_app" by (simp add: store0_def)
  have run: "createSecret (store_env gen0) ?x (store0, []) = (Inr (), (?st1, ?tr1))"
    by (simp add: createSecret_def wrapper_defs reads_done_def store_defs scenario_defs)
  have h: "''v1'' \<in> set (holders AWSCURRENT db_app)" by (simp add: holders_def db_app_def)
  note frame = createSecret_frame [of store0 "''db/app''" db_app, OF sec well_staged_db_app run]
  from frame h
  have "map_of (map (write_version ''v2'' ''new-password'' [AWSPENDING]) (entries db_app)) ''v1''
          = map_of (entries db_app) ''v1''"
    and "map_of (map (write_version ''v2'' ''new-password'' [AWSPENDING]) (entries db_app)) ''v0''
          = map_of (entries db_app) ''v0''"
    by auto
  moreover from frame have "?st1 ''db/other'' = store0 ''db/other''" by simp
  ultimately show ?thesis using run by (simp add: db_app_def)
qed

end
